theory Spec2Isabelle
  imports
    Complex_Main
    "HOL-Library.Word"
    "HOL-Library.Sublist"
    "HOL-Library.Char_ord"
    "HOL-Library.List_Lexorder"
begin

section \<open>Inventory Manager: the product and catalog core of Source.cpp\<close>

text \<open>
  The development embeds the classes \<^verbatim>\<open>Product\<close>, \<^verbatim>\<open>Electronics\<close>, \<^verbatim>\<open>Food\<close> and
  \<^verbatim>\<open>InventoryManager\<close> of Source.cpp. The interactive menu (\<^verbatim>\<open>main\<close>,
  \<^verbatim>\<open>getValidatedInt\<close>, \<^verbatim>\<open>getValidatedDouble\<close>), \<^verbatim>\<open>displayProduct\<close>,
  \<^verbatim>\<open>displayInventory\<close> and the empty \<^verbatim>\<open>loadInventoryFromFile\<close> are not embedded.
\<close>

subsection \<open>The type int\<close>

text \<open>
  \<^verbatim>\<open>int\<close> is a 32-bit two's complement integer. Signed overflow is undefined behaviour
  in C++; the embedding gives it the value the hardware computes, the wrap-around of
  \<^typ>\<open>32 word\<close>. Every statement that reads a stock level as a number goes through
  \<^const>\<open>sint\<close> and says where it relies on the absence of overflow.
\<close>

type_synonym int32 = "32 word"

definition INT_MAX :: int where
  "INT_MAX = 2147483647"

subsection \<open>The type double\<close>

text \<open>
  \<^verbatim>\<open>double\<close> is IEEE 754 binary64 with the default rounding, to nearest with ties to
  even. A finite value is \<open>(-1)\<^sup>s * m * 2\<^sup>e\<close>, kept in the form of its bit pattern:
  \<open>2\<^sup>5\<^sup>2 \<le> m < 2\<^sup>5\<^sup>3\<close> and \<open>-1074 \<le> e \<le> 971\<close> for a normal number, \<open>m < 2\<^sup>5\<^sup>2\<close> and
  \<open>e = -1074\<close> for a subnormal one and for zero. All NaNs are one value: the program
  never looks at a payload.
\<close>

datatype double = Finite bool nat int | Infinity bool | NaN

fun bit_length :: "nat \<Rightarrow> nat" where
  "bit_length n = (if n = 0 then 0 else bit_length (n div 2) + 1)"

declare bit_length.simps [simp del]

text \<open>
  \<open>floor_log2 a b\<close> is the integer \<open>l\<close> with \<open>2\<^sup>l \<le> a / b < 2\<^sup>l\<^sup>+\<^sup>1\<close>, for positive
  \<open>a\<close> and \<open>b\<close>: the difference of the bit lengths, or one less.
\<close>

definition floor_log2_from :: "nat \<Rightarrow> nat \<Rightarrow> int \<Rightarrow> int" where
  "floor_log2_from a b l = (if b * 2 ^ nat l \<le> a * 2 ^ nat (- l) then l else l - 1)"

definition floor_log2 :: "nat \<Rightarrow> nat \<Rightarrow> int" where
  "floor_log2 a b = floor_log2_from a b (int (bit_length a) - int (bit_length b))"

text \<open>The integer nearest to \<open>n / d\<close>, the even one of the two at a tie.\<close>

definition ties_to_even :: "nat \<Rightarrow> nat \<Rightarrow> nat \<Rightarrow> nat" where
  "ties_to_even m r d =
     (if 2 * r < d then m
      else if d < 2 * r then m + 1
      else if even m then m else m + 1)"

definition round_half_even :: "nat \<Rightarrow> nat \<Rightarrow> nat" where
  "round_half_even n d = ties_to_even (n div d) (n mod d) d"

text \<open>
  Rounding the exact value \<open>a / b * 2\<^sup>x\<close> (\<open>b\<close> positive) with sign \<open>s\<close>: the unit
  in the last place is \<open>2\<^sup>e\<close> with \<open>e\<close> fifty-two below the binary exponent of the
  value, and never below \<open>-1074\<close>; a mantissa that rounds up to \<open>2\<^sup>5\<^sup>3\<close> moves to the
  next exponent; a result beyond the largest finite number is an infinity.
\<close>

definition pack :: "bool \<Rightarrow> nat \<Rightarrow> int \<Rightarrow> double" where
  "pack s m e =
     (if m = 2 ^ 53 then (if 971 < e + 1 then Infinity s else Finite s (2 ^ 52) (e + 1))
      else if 971 < e then Infinity s else Finite s m e)"

definition round_at :: "bool \<Rightarrow> nat \<Rightarrow> nat \<Rightarrow> int \<Rightarrow> double" where
  "round_at s num den e =
     pack s (round_half_even (num * 2 ^ nat (- e)) (den * 2 ^ nat e)) e"

definition round_ratio :: "bool \<Rightarrow> nat \<Rightarrow> nat \<Rightarrow> double" where
  "round_ratio s num den = round_at s num den (max (floor_log2 num den - 52) (- 1074))"

definition round_double :: "bool \<Rightarrow> nat \<Rightarrow> nat \<Rightarrow> int \<Rightarrow> double" where
  "round_double s a b x =
     (if a = 0 then Finite s 0 (- 1074)
      else round_ratio s (a * 2 ^ nat x) (b * 2 ^ nat (- x)))"

text \<open>The conversion of an \<^verbatim>\<open>int\<close> operand, as in \<^verbatim>\<open>percentage / 100\<close>.\<close>

definition double_of_int :: "int \<Rightarrow> double" where
  "double_of_int i = round_double (i < 0) (nat \<bar>i\<bar>) 1 0"

text \<open>The operators \<^verbatim>\<open>*\<close>, \<^verbatim>\<open>/\<close> and \<^verbatim>\<open>-\<close> on \<^verbatim>\<open>double\<close>.\<close>

fun dmul :: "double \<Rightarrow> double \<Rightarrow> double" where
  "dmul NaN _ = NaN"
| "dmul _ NaN = NaN"
| "dmul (Infinity s) (Infinity t) = Infinity (s \<noteq> t)"
| "dmul (Infinity s) (Finite t m e) = (if m = 0 then NaN else Infinity (s \<noteq> t))"
| "dmul (Finite s m e) (Infinity t) = (if m = 0 then NaN else Infinity (s \<noteq> t))"
| "dmul (Finite s m e) (Finite t n f) = round_double (s \<noteq> t) (m * n) 1 (e + f)"

fun ddiv :: "double \<Rightarrow> double \<Rightarrow> double" where
  "ddiv NaN _ = NaN"
| "ddiv _ NaN = NaN"
| "ddiv (Infinity s) (Infinity t) = NaN"
| "ddiv (Infinity s) (Finite t m e) = Infinity (s \<noteq> t)"
| "ddiv (Finite s m e) (Infinity t) = Finite (s \<noteq> t) 0 (- 1074)"
| "ddiv (Finite s m e) (Finite t n f) =
     (if n = 0 then (if m = 0 then NaN else Infinity (s \<noteq> t))
      else round_double (s \<noteq> t) m n (e - f))"

fun dneg :: "double \<Rightarrow> double" where
  "dneg NaN = NaN"
| "dneg (Infinity s) = Infinity (\<not> s)"
| "dneg (Finite s m e) = Finite (\<not> s) m e"

definition signed :: "bool \<Rightarrow> nat \<Rightarrow> int" where
  "signed s m = (if s then - int m else int m)"

text \<open>An exact sum of zero is \<open>+0\<close>, unless both operands are negative.\<close>

definition round_sum :: "bool \<Rightarrow> bool \<Rightarrow> int \<Rightarrow> int \<Rightarrow> double" where
  "round_sum s t v g =
     (if v = 0 then Finite (s \<and> t) 0 (- 1074) else round_double (v < 0) (nat \<bar>v\<bar>) 1 g)"

fun dadd :: "double \<Rightarrow> double \<Rightarrow> double" where
  "dadd NaN _ = NaN"
| "dadd _ NaN = NaN"
| "dadd (Infinity s) (Infinity t) = (if s = t then Infinity s else NaN)"
| "dadd (Infinity s) (Finite t m e) = Infinity s"
| "dadd (Finite s m e) (Infinity t) = Infinity t"
| "dadd (Finite s m e) (Finite t n f) =
     round_sum s t
       (signed s m * 2 ^ nat (e - min e f) + signed t n * 2 ^ nat (f - min e f)) (min e f)"

definition dsub :: "double \<Rightarrow> double \<Rightarrow> double" where
  "dsub x y = dadd x (dneg y)"

text \<open>The order \<^verbatim>\<open>x < 0\<close> on \<^verbatim>\<open>double\<close>, used to read the sign of a price.\<close>

fun is_negative :: "double \<Rightarrow> bool" where
  "is_negative NaN = False"
| "is_negative (Infinity s) = s"
| "is_negative (Finite s m e) = (s \<and> m \<noteq> 0)"

text \<open>
  The real number a finite double stands for, and the form of a bit pattern. They are
  used to state that the operators above round correctly, not by the program.
\<close>

fun valof :: "double \<Rightarrow> real" where
  "valof (Finite s m e) = (if s then - 1 else 1) * real m * 2 powi e"
| "valof (Infinity s) = 0"
| "valof NaN = 0"

definition canonical :: "nat \<Rightarrow> int \<Rightarrow> bool" where
  "canonical m e \<longleftrightarrow> m < 2 ^ 53 \<and> - 1074 \<le> e \<and> e \<le> 971 \<and> (m < 2 ^ 52 \<longrightarrow> e = - 1074)"

subsection \<open>Class Product and its two subclasses\<close>

text \<open>
  The class hierarchy is closed (\<^verbatim>\<open>Electronics\<close> and \<^verbatim>\<open>Food\<close>), so an object is a
  record of the three base-class fields and a tagged field for the subclass member:
  \<^verbatim>\<open>warrantyPeriod\<close> or \<^verbatim>\<open>expirationDate\<close>.
\<close>

datatype product_kind = Electronics (warrantyPeriod: int32) | Food (expirationDate: string)

record product =
  productName :: string
  price :: double
  stockQuantity :: int32
  kind :: product_kind

text \<open>\<^verbatim>\<open>getProductType\<close>, overridden in each subclass.\<close>

fun getProductType :: "product \<Rightarrow> string" where
  "getProductType p =
     (case kind p of Electronics _ \<Rightarrow> ''Electronics'' | Food _ \<Rightarrow> ''Food'')"

text \<open>\<^verbatim>\<open>void applyDiscount(double percentage) { price -= price * (percentage / 100); }\<close>\<close>

definition Product_applyDiscount :: "double \<Rightarrow> product \<Rightarrow> product" where
  "Product_applyDiscount percentage p =
     p\<lparr>price := dsub (price p) (dmul (price p) (ddiv percentage (double_of_int 100)))\<rparr>"

text \<open>\<^verbatim>\<open>void updateStock(int quantity) { stockQuantity += quantity; }\<close>\<close>

definition updateStock :: "int32 \<Rightarrow> product \<Rightarrow> product" where
  "updateStock quantity p = p\<lparr>stockQuantity := stockQuantity p + quantity\<rparr>"

text \<open>
  \<^verbatim>\<open>bool sellProduct(int quantity)\<close>: the returned flag and the object after the call.
  The comparison \<^verbatim>\<open>stockQuantity >= quantity\<close> is the signed one.
\<close>

definition Product_sellProduct :: "int32 \<Rightarrow> product \<Rightarrow> bool \<times> product" where
  "Product_sellProduct quantity p =
     (if sint quantity \<le> sint (stockQuantity p)
      then (True, p\<lparr>stockQuantity := stockQuantity p - quantity\<rparr>)
      else (False, p))"

text \<open>A sequence of sale requests on one object: the flags are dropped, the object is threaded.\<close>

fun sell_requests :: "int32 list \<Rightarrow> product \<Rightarrow> product" where
  "sell_requests [] p = p"
| "sell_requests (q # qs) p = sell_requests qs (snd (Product_sellProduct q p))"

subsection \<open>Text written by the stream operators\<close>

text \<open>\<^verbatim>\<open>operator<<\<close> on an \<^verbatim>\<open>int\<close>: decimal digits, with a minus sign for a negative value.\<close>

definition digit_char :: "nat \<Rightarrow> char" where
  "digit_char d = ''0123456789'' ! d"

fun digits_of_nat :: "nat \<Rightarrow> string" where
  "digits_of_nat n =
     (if n < 10 then [digit_char n] else digits_of_nat (n div 10) @ [digit_char (n mod 10)])"

declare digits_of_nat.simps [simp del]

definition string_of_int32 :: "int32 \<Rightarrow> string" where
  "string_of_int32 i =
     (if sint i < 0 then CHR ''-'' # digits_of_nat (nat (- sint i))
      else digits_of_nat (nat (sint i)))"

text \<open>The number a string of decimal digits is read as; used to check \<^const>\<open>digits_of_nat\<close>.\<close>

fun decimal_value :: "string \<Rightarrow> nat" where
  "decimal_value cs = foldl (\<lambda>v c. 10 * v + (of_char c - 48)) 0 cs"

subsection \<open>The state: objects, the map, the two files, the console, the clock\<close>

text \<open>
  The map holds \<^verbatim>\<open>shared_ptr<Product>\<close>, so the objects live in a store indexed by
  address and the map holds addresses: two entries pointing to one object would see
  each other's updates. The store is total: it holds every object the caller ever
  constructs, and the manager never reads an address it was not given.

  \<^verbatim>\<open>std::map<string, ...>\<close> iterates in the order of \<^verbatim>\<open>std::less<string>\<close>, the
  lexicographic order of the bytes; the map is the list of its entries in that order.

  \<^verbatim>\<open>transaction_log.txt\<close> and \<^verbatim>\<open>inventory.txt\<close> are lists of lines, \<^verbatim>\<open>cout\<close> a list of
  the texts written. Opening a file is assumed to succeed (the source does not test
  it). A line of the log keeps the operands of its \<^verbatim>\<open><<\<close> chain: the time read from
  \<^verbatim>\<open>std::time\<close>, the type, the product name and the \<^verbatim>\<open>int\<close> or \<^verbatim>\<open>double\<close> of the
  overload. The clock is an oracle: \<open>clock w n\<close> is what the \<open>n\<close>-th reading returns.
\<close>

type_synonym addr = nat
type_synonym time_t = int

datatype amount = Quantity int32 | Discount double

record log_line =
  stamp :: time_t
  event :: string
  subject :: string
  magnitude :: amount

record world =
  heap :: "addr \<Rightarrow> product"
  inventory :: "(string \<times> addr) list"
  transaction_log :: "log_line list"
  inventory_txt :: "string list"
  console :: "string list"
  clock :: "nat \<Rightarrow> time_t"
  clock_reads :: nat

definition restockAmount :: int32 where
  "restockAmount = 10"

text \<open>\<^verbatim>\<open>inventory[name] = product\<close>: insert in key order, or overwrite.\<close>

fun map_assign :: "string \<Rightarrow> addr \<Rightarrow> (string \<times> addr) list \<Rightarrow> (string \<times> addr) list" where
  "map_assign k v [] = [(k, v)]"
| "map_assign k v ((k', v') # es) =
     (if k < k' then (k, v) # (k', v') # es
      else if k = k' then (k, v) # es
      else (k', v') # map_assign k v es)"

text \<open>The two overloads of \<^verbatim>\<open>logTransaction\<close>: one line appended, one reading of the clock.\<close>

definition logTransaction_int :: "string \<Rightarrow> string \<Rightarrow> int32 \<Rightarrow> world \<Rightarrow> world" where
  "logTransaction_int type name quantity w =
     w\<lparr>transaction_log := transaction_log w @
          [\<lparr>stamp = clock w (clock_reads w), event = type, subject = name,
            magnitude = Quantity quantity\<rparr>],
       clock_reads := clock_reads w + 1\<rparr>"

definition logTransaction_double :: "string \<Rightarrow> string \<Rightarrow> double \<Rightarrow> world \<Rightarrow> world" where
  "logTransaction_double type name percentage w =
     w\<lparr>transaction_log := transaction_log w @
          [\<lparr>stamp = clock w (clock_reads w), event = type, subject = name,
            magnitude = Discount percentage\<rparr>],
       clock_reads := clock_reads w + 1\<rparr>"

text \<open>\<^verbatim>\<open>addProduct(shared_ptr<Product> product)\<close>; \<open>inventory.find\<close> is \<^const>\<open>map_of\<close>.\<close>

definition addProduct :: "addr \<Rightarrow> world \<Rightarrow> world" where
  "addProduct product w =
     (if map_of (inventory w) (productName (heap w product)) \<noteq> None
      then w\<lparr>console := console w @
                [''Product with name '' @ [CHR 0x27] @ productName (heap w product) @ [CHR 0x27]
                   @ '' already exists. Skipping...'' @ [CHR 0x0A]]\<rparr>
      else w\<lparr>inventory := map_assign (productName (heap w product)) product (inventory w)\<rparr>)"

text \<open>\<^verbatim>\<open>bool sellProduct(const string& productName, int quantity)\<close>\<close>

definition InventoryManager_sellProduct :: "string \<Rightarrow> int32 \<Rightarrow> world \<Rightarrow> bool \<times> world" where
  "InventoryManager_sellProduct name quantity w =
     (case map_of (inventory w) name of
        Some it \<Rightarrow>
          (if fst (Product_sellProduct quantity (heap w it))
           then (True, logTransaction_int ''Sale'' name quantity
                         (w\<lparr>heap := (heap w)(it := snd (Product_sellProduct quantity (heap w it)))\<rparr>))
           else (False, w\<lparr>heap := (heap w)(it := snd (Product_sellProduct quantity (heap w it)))\<rparr>))
      | None \<Rightarrow> (False, w))"

text \<open>\<^verbatim>\<open>void applyDiscount(const string& productName, double percentage)\<close>\<close>

definition InventoryManager_applyDiscount :: "string \<Rightarrow> double \<Rightarrow> world \<Rightarrow> world" where
  "InventoryManager_applyDiscount name percentage w =
     (case map_of (inventory w) name of
        Some it \<Rightarrow>
          logTransaction_double ''Discount'' name percentage
            (w\<lparr>heap := (heap w)(it := Product_applyDiscount percentage (heap w it))\<rparr>)
      | None \<Rightarrow> w\<lparr>console := console w @ [''Product not found.'' @ [CHR 0x0A]]\<rparr>)"

text \<open>
  \<^verbatim>\<open>saveInventoryToFile\<close>: \<^verbatim>\<open>ofstream outFile("inventory.txt")\<close> opens the file empty,
  the loop writes one line for each entry.
\<close>

fun write_entries :: "(string \<times> addr) list \<Rightarrow> (addr \<Rightarrow> product) \<Rightarrow> string list \<Rightarrow> string list" where
  "write_entries [] h outFile = outFile"
| "write_entries ((first, second) # es) h outFile =
     write_entries es h
       (outFile @ [first @ '' | '' @ getProductType (h second) @ '' | ''
                     @ string_of_int32 (stockQuantity (h second)) @ '' | ''])"

definition saveInventoryToFile :: "world \<Rightarrow> world" where
  "saveInventoryToFile w = w\<lparr>inventory_txt := write_entries (inventory w) (heap w) []\<rparr>"

text \<open>\<^verbatim>\<open>void restockProduct(shared_ptr<Product> product)\<close>\<close>

definition restockProduct :: "addr \<Rightarrow> world \<Rightarrow> world" where
  "restockProduct product w =
     (let w1 = w\<lparr>heap := (heap w)(product := updateStock restockAmount (heap w product))\<rparr>;
          w2 = logTransaction_int ''Restock'' (productName (heap w1 product)) restockAmount w1
      in w2\<lparr>console := console w2 @
               [''Restocked '' @ productName (heap w2 product) @ '' by ''
                  @ string_of_int32 restockAmount @ '' units.'' @ [CHR 0x0A]]\<rparr>)"

text \<open>
  \<^verbatim>\<open>void checkAndRestock(int threshold)\<close>: the loop over the entries reads each stock
  level from the store as it is when the entry is reached.
\<close>

fun restock_loop :: "(string \<times> addr) list \<Rightarrow> int32 \<Rightarrow> world \<Rightarrow> world" where
  "restock_loop [] threshold w = w"
| "restock_loop ((first, second) # es) threshold w =
     restock_loop es threshold
       (if sint (stockQuantity (heap w second)) < sint threshold
        then restockProduct second w else w)"

definition checkAndRestock :: "int32 \<Rightarrow> world \<Rightarrow> world" where
  "checkAndRestock threshold w = restock_loop (inventory w) threshold w"

subsection \<open>Sequences of calls\<close>

text \<open>The calls a client can make on an \<^verbatim>\<open>InventoryManager\<close>, and a session of them.\<close>

datatype call =
    AddProduct addr
  | SellProduct string int32
  | ApplyDiscount string double
  | CheckAndRestock int32
  | SaveInventoryToFile

fun step :: "call \<Rightarrow> world \<Rightarrow> world" where
  "step (AddProduct a) w = addProduct a w"
| "step (SellProduct name q) w = snd (InventoryManager_sellProduct name q w)"
| "step (ApplyDiscount name pct) w = InventoryManager_applyDiscount name pct w"
| "step (CheckAndRestock threshold) w = checkAndRestock threshold w"
| "step SaveInventoryToFile w = saveInventoryToFile w"

fun run :: "call list \<Rightarrow> world \<Rightarrow> world" where
  "run [] w = w"
| "run (c # cs) w = run cs (step c w)"

subsection \<open>The shape of a catalog\<close>

text \<open>
  What holds of the map in every state a session reaches from an empty map: the keys
  are strictly increasing, and each entry's key is the name of the object it points to.
\<close>

definition catalog_ok :: "world \<Rightarrow> bool" where
  "catalog_ok w \<longleftrightarrow>
     sorted_wrt (<) (map fst (inventory w)) \<and>
     list_all (\<lambda>(k, a). productName (heap w a) = k) (inventory w)"

subsection \<open>What the specification expects of a restock and of a snapshot\<close>

text \<open>
  These three definitions follow the words of the specification, not the loops of the
  source; the theorems below relate the loops to them. An entry is low on stock when
  the stock of its object is strictly below the threshold.
\<close>

definition low_stock :: "int32 \<Rightarrow> (addr \<Rightarrow> product) \<Rightarrow> string \<times> addr \<Rightarrow> bool" where
  "low_stock threshold h e \<longleftrightarrow> sint (stockQuantity (h (snd e))) < sint threshold"

text \<open>One Restock line of \<^const>\<open>restockAmount\<close> for each name, each with its own reading of the clock.\<close>

fun restock_lines :: "(nat \<Rightarrow> time_t) \<Rightarrow> nat \<Rightarrow> string list \<Rightarrow> log_line list" where
  "restock_lines clk n [] = []"
| "restock_lines clk n (k # ks) =
     \<lparr>stamp = clk n, event = ''Restock'', subject = k, magnitude = Quantity restockAmount\<rparr>
       # restock_lines clk (Suc n) ks"

text \<open>The line \<^verbatim>\<open><name> | <kindLabel> | <stockQuantity> | \<close> of one entry.\<close>

definition snapshot_line :: "(addr \<Rightarrow> product) \<Rightarrow> string \<times> addr \<Rightarrow> string" where
  "snapshot_line h e =
     fst e @ '' | '' @ getProductType (h (snd e)) @ '' | ''
       @ string_of_int32 (stockQuantity (h (snd e))) @ '' | ''"

subsection \<open>Example objects and states\<close>

definition widget :: product where
  "widget = \<lparr>productName = ''Widget'', price = double_of_int 100, stockQuantity = 5,
              kind = Electronics 12\<rparr>"

definition apple :: product where
  "apple = \<lparr>productName = ''Apple'', price = double_of_int 3, stockQuantity = 12,
             kind = Food ''2025-06-01''\<rparr>"

definition gadget :: product where
  "gadget = \<lparr>productName = ''Gadget'', price = double_of_int 100, stockQuantity = 0,
              kind = Electronics 24\<rparr>"

text \<open>
  A store of four objects, two of them named Widget, and a catalog of the first three.
\<close>

definition shop_heap :: "addr \<Rightarrow> product" where
  "shop_heap a =
     (if a = 0 then widget else if a = 1 then apple else if a = 2 then gadget
      else widget\<lparr>stockQuantity := 40\<rparr>)"

definition empty_shop :: world where
  "empty_shop =
     \<lparr>heap = shop_heap, inventory = [], transaction_log = [], inventory_txt = [],
      console = [], clock = (\<lambda>n. 1746800000 + int n), clock_reads = 0\<rparr>"

definition shop :: world where
  "shop = empty_shop\<lparr>inventory := [(''Apple'', 1), (''Gadget'', 2), (''Widget'', 0)]\<rparr>"

text \<open>A catalog whose only product has a stock of \<open>INT_MAX\<close>.\<close>

definition warehouse :: world where
  "warehouse = empty_shop\<lparr>heap := (\<lambda>a. widget\<lparr>stockQuantity := 2147483647\<rparr>),
                            inventory := [(''Widget'', 0)]\<rparr>"

text \<open>A catalog whose only product has a stock five below \<open>INT_MAX\<close>.\<close>

definition depot :: world where
  "depot = empty_shop\<lparr>heap := (\<lambda>a. widget\<lparr>stockQuantity := 2147483642\<rparr>),
                        inventory := [(''Widget'', 0)]\<rparr>"

text \<open>A product with a price of 1.0.\<close>

definition one_item :: product where
  "one_item = \<lparr>productName = ''Bolt'', price = double_of_int 1, stockQuantity = 1,
                kind = Electronics 0\<rparr>"

section \<open>Properties\<close>

subsection \<open>The operators of double round to nearest\<close>

text \<open>
  Each operator on finite operands, when its result is finite, returns a bit pattern
  in canonical form whose value is within half a unit in the last place of the exact
  result.
\<close>

lemma bit_length_bounds:
  "0 < n \<Longrightarrow> 2 ^ (bit_length n - 1) \<le> n \<and> n < 2 ^ bit_length n"
proof (induction n rule: bit_length.induct)
  case (1 n)
  show ?case
  proof (cases "n div 2 = 0")
    case True
    with 1(2) have "n = 1" by (simp add: div_eq_0_iff) 
    then show ?thesis by (simp add: bit_length.simps)
  next
    case False
    then have pos: "0 < n div 2" by simp
    from 1(2) have n0: "n \<noteq> 0" by simp
    from 1(1) [OF n0 pos]
    have lo: "2 ^ (bit_length (n div 2) - 1) \<le> n div 2"
      and hi: "n div 2 < 2 ^ bit_length (n div 2)" by simp_all
    have bl: "bit_length n = bit_length (n div 2) + 1"
      using n0 by (subst bit_length.simps) simp
    have blpos: "0 < bit_length (n div 2)"
      using pos by (subst bit_length.simps) simp
    then have "(2::nat) ^ bit_length (n div 2) = 2 * 2 ^ (bit_length (n div 2) - 1)"
      by (cases "bit_length (n div 2)") simp_all
    with lo have "2 ^ bit_length (n div 2) \<le> 2 * (n div 2)" by simp
    also have "\<dots> \<le> n" by simp
    finally have A: "2 ^ (bit_length n - 1) \<le> n" by (simp add: bl)
    from hi have "n div 2 + 1 \<le> 2 ^ bit_length (n div 2)" by simp
    then have "2 * (n div 2) + 2 \<le> 2 * 2 ^ bit_length (n div 2)" by simp
    moreover have "n < 2 * (n div 2) + 2" by presburger
    ultimately have B: "n < 2 ^ bit_length n" by (simp add: bl)
    from A B show ?thesis ..
  qed
qed

lemma two_powi_split: "(2::real) powi l = 2 ^ nat l / 2 ^ nat (- l)"
  by (cases "0 \<le> l") (simp_all add: power_int_def field_simps)

lemma round_half_even_nearest:
  assumes "0 < d"
  shows "\<bar>real (round_half_even n d) - real n / real d\<bar> \<le> 1 / 2"
proof -
  define m r where "m = n div d" and "r = n mod d"
  have n: "real n = real m * real d + real r"
    unfolding m_def r_def by (metis div_mult_mod_eq of_nat_add of_nat_mult)
  have r: "r < d" unfolding r_def using assms by simp
  have q: "real n / real d = real m + real r / real d"
    using assms by (simp add: n field_simps)
  have rh: "round_half_even n d = ties_to_even m r d"
    by (simp add: round_half_even_def m_def r_def)
  consider "2 * r < d" | "d < 2 * r" | "2 * r = d" by linarith
  then show ?thesis
  proof cases
    case 1
    then have "ties_to_even m r d = m" by (simp add: ties_to_even_def)
    moreover from 1 assms have "real r / real d \<le> 1 / 2" by (simp add: field_simps)
    ultimately show ?thesis using q rh by simp
  next
    case 2
    then have "ties_to_even m r d = m + 1" by (simp add: ties_to_even_def)
    moreover from 2 assms have "1 / 2 \<le> real r / real d" by (simp add: field_simps)
    moreover from r assms have "real r / real d \<le> 1" by (simp add: field_simps)
    ultimately show ?thesis using q rh by simp
  next
    case 3
    then have "ties_to_even m r d = m \<or> ties_to_even m r d = m + 1"
      by (simp add: ties_to_even_def)
    moreover from 3 assms have "real r / real d = 1 / 2"
      by (simp add: field_simps)
    ultimately show ?thesis using q rh by auto
  qed
qed


lemma bit_length_real:
  assumes "0 < n"
  shows "2 powi (int (bit_length n) - 1) \<le> real n" and "real n < 2 powi int (bit_length n)"
proof -
  from bit_length_bounds [OF assms]
  have lo: "2 ^ (bit_length n - 1) \<le> n" and hi: "n < 2 ^ bit_length n" by simp_all
  have pos: "0 < bit_length n" using assms by (subst bit_length.simps) simp
  then have "int (bit_length n) - 1 = int (bit_length n - 1)" by simp
  then have "(2::real) powi (int (bit_length n) - 1) = 2 ^ (bit_length n - 1)"
    by (simp only: power_int_of_nat)
  also have "\<dots> = real (2 ^ (bit_length n - 1))" by simp
  also have "\<dots> \<le> real n" using lo by (simp only: of_nat_le_iff)
  finally show "2 powi (int (bit_length n) - 1) \<le> real n" .
  have "real n < real (2 ^ bit_length n)" using hi by (simp only: of_nat_less_iff)
  then show "real n < 2 powi int (bit_length n)" by simp
qed

lemma scaled_ratio:
  assumes "0 < b"
  shows "real (a * 2 ^ nat x) / real (b * 2 ^ nat (- x)) = real a / real b * 2 powi x"
  using assms by (simp add: two_powi_split)

lemma floor_log2_from_test:
  assumes "0 < b"
  shows "b * 2 ^ nat l \<le> a * 2 ^ nat (- l) \<longleftrightarrow> 2 powi l \<le> real a / real b"
proof -
  have "b * 2 ^ nat l \<le> a * 2 ^ nat (- l) \<longleftrightarrow>
      real (b * 2 ^ nat l) \<le> real (a * 2 ^ nat (- l))"
    by (simp only: of_nat_le_iff)
  also have "\<dots> \<longleftrightarrow> 2 powi l \<le> real a / real b"
    using assms by (simp add: two_powi_split field_simps)
  finally show ?thesis .
qed

lemma floor_log2_bounds:
  assumes "0 < a" and "0 < b"
  shows "2 powi floor_log2 a b \<le> real a / real b"
    and "real a / real b < 2 powi (floor_log2 a b + 1)"
proof -
  define l where "l = int (bit_length a) - int (bit_length b)"
  note A = bit_length_real [OF assms(1)] and B = bit_length_real [OF assms(2)]
  have bpos: "0 < real b" using assms by simp
  have "real a / real b < 2 powi int (bit_length a) / 2 powi (int (bit_length b) - 1)"
    using A(2) B(1) bpos by (intro frac_less) simp_all
  also have "\<dots> = 2 powi (int (bit_length a) - (int (bit_length b) - 1))"
    by (subst power_int_diff) simp_all
  also have "int (bit_length a) - (int (bit_length b) - 1) = l + 1"
    by (simp add: l_def)
  finally have upper: "real a / real b < 2 powi (l + 1)" .
  have "l - 1 = int (bit_length a) - 1 - int (bit_length b)"
    by (simp add: l_def)
  then have "(2::real) powi (l - 1) = 2 powi (int (bit_length a) - 1 - int (bit_length b))"
    by (simp only:)
  also have "\<dots> = 2 powi (int (bit_length a) - 1) / 2 powi int (bit_length b)"
    by (subst power_int_diff) simp_all
  also have "\<dots> \<le> real a / real b"
    using A(1) B(2) bpos by (intro frac_le) simp_all
  finally have lower: "2 powi (l - 1) \<le> real a / real b" .
  have "floor_log2 a b = floor_log2_from a b l"
    by (simp only: floor_log2_def l_def)
  also have "\<dots> = (if b * 2 ^ nat l \<le> a * 2 ^ nat (- l) then l else l - 1)"
    by (simp only: floor_log2_from_def)
  also have "\<dots> = (if 2 powi l \<le> real a / real b then l else l - 1)"
    by (simp only: floor_log2_from_test [OF assms(2)])
  finally have fl: "floor_log2 a b = (if 2 powi l \<le> real a / real b then l else l - 1)" .
  show "2 powi floor_log2 a b \<le> real a / real b"
    using lower by (simp add: fl)
  show "real a / real b < 2 powi (floor_log2 a b + 1)"
    using upper by (simp add: fl)
qed


lemma round_ratio_nearest:
  assumes num: "0 < num" and den: "0 < den"
    and res: "round_ratio s num den = Finite t m e"
  shows "t = s \<and> canonical m e \<and>
         \<bar>real m * 2 powi e - real num / real den\<bar> \<le> 2 powi e / 2"
proof -
  define v where "v = real num / real den"
  define fl where "fl = floor_log2 num den"
  define u where "u = max (fl - 52) (- 1074)"
  define k where "k = round_half_even (num * 2 ^ nat (- u)) (den * 2 ^ nat u)"
  have vpos: "0 < v" using num den by (simp add: v_def)
  have lo: "2 powi fl \<le> v" and hi: "v < 2 powi (fl + 1)"
    using floor_log2_bounds [OF num den] by (simp_all add: v_def fl_def)
  have upos: "0 < (2::real) powi u" by simp
  have scaled: "real (num * 2 ^ nat (- u)) / real (den * 2 ^ nat u) = v / 2 powi u"
    using scaled_ratio [OF den, of num "- u"]
    by (simp add: v_def power_int_minus field_simps)
  have "0 < den * 2 ^ nat u" using den by simp
  from round_half_even_nearest [OF this, of "num * 2 ^ nat (- u)"]
  have near: "\<bar>real k - v / 2 powi u\<bar> \<le> 1 / 2"
    by (simp only: k_def scaled)
  have "\<bar>real k * 2 powi u - v\<bar> = \<bar>real k - v / 2 powi u\<bar> * 2 powi u"
    using upos by (simp add: abs_mult [symmetric] field_simps del: zero_less_power_int)
  also have "\<dots> \<le> 1 / 2 * 2 powi u"
    using near upos by (intro mult_right_mono) simp_all
  finally have err: "\<bar>real k * 2 powi u - v\<bar> \<le> 2 powi u / 2" by simp
  have "v / 2 powi u < 2 powi (fl + 1) / 2 powi u"
    using hi upos by (simp add: divide_strict_right_mono)
  also have "\<dots> = 2 powi (fl + 1 - u)" by (subst power_int_diff) simp_all
  also have "\<dots> \<le> 2 powi 53"
    by (intro power_int_increasing) (simp_all add: u_def)
  finally have "v / 2 powi u < 2 ^ 53" by simp
  with near have "real k < 2 ^ 53 + 1" by linarith
  then have "real k < real (2 ^ 53 + 1)" by simp
  then have kle: "k \<le> 2 ^ 53" by (simp only: of_nat_less_iff)
  have kge: "2 ^ 52 \<le> k" if "u \<noteq> - 1074"
  proof -
    from that have ueq: "u = fl - 52" by (simp add: u_def max_def split: if_splits)
    have "(2::real) powi 52 = 2 powi (fl - u)" by (simp add: ueq)
    also have "\<dots> = 2 powi fl / 2 powi u" by (subst power_int_diff) simp_all
    also have "\<dots> \<le> v / 2 powi u" using lo upos by (simp add: divide_right_mono)
    finally have "2 ^ 52 \<le> v / 2 powi u" by simp
    with near have "(2::real) ^ 52 - 1 < real k" by linarith
    then have "real (2 ^ 52 - 1) < real k" by simp
    then have "2 ^ 52 - 1 < k" by (simp only: of_nat_less_iff)
    then show ?thesis by simp
  qed
  have ulow: "- 1074 \<le> u" by (simp add: u_def)
  have packed: "round_ratio s num den = pack s k u"
    by (simp add: round_ratio_def round_at_def k_def u_def fl_def)
  show ?thesis
  proof (cases "k = 2 ^ 53")
    case True
    with res packed have t: "t = s" and m: "m = 2 ^ 52" and e: "e = u + 1" and top: "u + 1 \<le> 971"
      by (simp_all add: pack_def split: if_splits)
    have "real m * 2 powi e = real k * 2 powi u"
      by (simp add: m e True power_int_add)
    moreover have "(2::real) powi u \<le> 2 powi e"
      by (intro power_int_increasing) (simp_all add: e)
    ultimately have "\<bar>real m * 2 powi e - v\<bar> \<le> 2 powi e / 2" using err by simp
    moreover have "canonical m e" using ulow top by (simp add: canonical_def m e)
    ultimately show ?thesis using t by (simp add: v_def)
  next
    case False
    with res packed have t: "t = s" and m: "m = k" and e: "e = u" and top: "u \<le> 971"
      by (simp_all add: pack_def split: if_splits)
    from False kle have "k < 2 ^ 53" by simp
    moreover have "e = - 1074" if "m < 2 ^ 52"
      using that kge by (auto simp: m e)
    ultimately have "canonical m e" using ulow top by (simp add: canonical_def m e)
    with err t show ?thesis by (simp add: v_def m e)
  qed
qed


lemma round_double_nearest:
  assumes b: "0 < b" and res: "round_double s a b x = Finite t m e"
  shows "t = s \<and> canonical m e \<and>
         \<bar>real m * 2 powi e - real a / real b * 2 powi x\<bar> \<le> 2 powi e / 2"
proof (cases "a = 0")
  case True
  with res show ?thesis by (simp add: round_double_def canonical_def)
next
  case False
  then have num: "0 < a * 2 ^ nat x" by simp
  from b have den: "0 < b * 2 ^ nat (- x)" by simp
  from False res have "round_ratio s (a * 2 ^ nat x) (b * 2 ^ nat (- x)) = Finite t m e"
    by (simp add: round_double_def)
  from round_ratio_nearest [OF num den this] show ?thesis
    by (simp only: scaled_ratio [OF b])
qed

lemma valof_sign: "valof (Finite s m e) = real_of_int (signed s m) * 2 powi e"
  by (simp add: signed_def)

lemma abs_flip: "\<bar>(if s then - 1 else 1) * x - (if s then - 1 else 1) * y\<bar> = \<bar>x - (y::real)\<bar>"
  by (cases s) (simp_all add: abs_minus_commute)

lemma dmul_nearest:
  assumes "dmul (Finite s m e) (Finite t n f) = Finite u k g"
  shows "canonical k g \<and>
         \<bar>valof (Finite u k g) - valof (Finite s m e) * valof (Finite t n f)\<bar> \<le> 2 powi g / 2"
proof -
  from assms have "round_double (s \<noteq> t) (m * n) 1 (e + f) = Finite u k g" by simp
  from round_double_nearest [OF _ this]
  have u: "u = (s \<noteq> t)" and c: "canonical k g"
    and err: "\<bar>real k * 2 powi g - real (m * n) * 2 powi (e + f)\<bar> \<le> 2 powi g / 2"
    by simp_all
  have "valof (Finite s m e) * valof (Finite t n f) =
      (if u then - 1 else 1) * (real (m * n) * 2 powi (e + f))"
    by (simp add: u power_int_add)
  moreover have "valof (Finite u k g) = (if u then - 1 else 1) * (real k * 2 powi g)"
    by simp
  ultimately show ?thesis using c err by (simp only: abs_flip)
qed

lemma ddiv_nearest:
  assumes "0 < n" and "ddiv (Finite s m e) (Finite t n f) = Finite u k g"
  shows "canonical k g \<and>
         \<bar>valof (Finite u k g) - valof (Finite s m e) / valof (Finite t n f)\<bar> \<le> 2 powi g / 2"
proof -
  from assms have "round_double (s \<noteq> t) m n (e - f) = Finite u k g" by simp
  from round_double_nearest [OF assms(1) this]
  have u: "u = (s \<noteq> t)" and c: "canonical k g"
    and err: "\<bar>real k * 2 powi g - real m / real n * 2 powi (e - f)\<bar> \<le> 2 powi g / 2"
    by simp_all
  have "valof (Finite s m e) / valof (Finite t n f) =
      (if u then - 1 else 1) * (real m / real n * 2 powi (e - f))"
    by (simp add: u power_int_diff)
  moreover have "valof (Finite u k g) = (if u then - 1 else 1) * (real k * 2 powi g)"
    by simp
  ultimately show ?thesis using c err by (simp only: abs_flip)
qed

lemma aligned_sum:
  "real_of_int (signed s m * 2 ^ nat (e - min e f) + signed t n * 2 ^ nat (f - min e f))
     * 2 powi min e f = valof (Finite s m e) + valof (Finite t n f)"
proof -
  have "(2::real) ^ nat (e - min e f) * 2 powi min e f = 2 powi e"
    by (simp add: power_int_add [symmetric] flip: power_int_of_nat)
  moreover have "(2::real) ^ nat (f - min e f) * 2 powi min e f = 2 powi f"
    by (simp add: power_int_add [symmetric] flip: power_int_of_nat)
  ultimately show ?thesis
    by (simp add: valof_sign algebra_simps del: valof.simps)
qed

lemma dadd_nearest:
  assumes "dadd (Finite s m e) (Finite t n f) = Finite u k g"
  shows "canonical k g \<and>
         \<bar>valof (Finite u k g) - (valof (Finite s m e) + valof (Finite t n f))\<bar> \<le> 2 powi g / 2"
proof -
  define v where "v = signed s m * 2 ^ nat (e - min e f) + signed t n * 2 ^ nat (f - min e f)"
  have exact: "real_of_int v * 2 powi min e f = valof (Finite s m e) + valof (Finite t n f)"
    unfolding v_def by (rule aligned_sum)
  from assms have res: "round_sum s t v (min e f) = Finite u k g" by (simp add: v_def)
  show ?thesis
  proof (cases "v = 0")
    case True
    with res have "k = 0" and "g = - 1074" by (simp_all add: round_sum_def)
    with exact True show ?thesis by (simp add: canonical_def)
  next
    case False
    with res have "round_double (v < 0) (nat \<bar>v\<bar>) 1 (min e f) = Finite u k g"
      by (simp add: round_sum_def)
    from round_double_nearest [OF _ this]
    have u: "u = (v < 0)" and c: "canonical k g"
      and err: "\<bar>real k * 2 powi g - real (nat \<bar>v\<bar>) * 2 powi min e f\<bar> \<le> 2 powi g / 2"
      by simp_all
    have sgn: "real_of_int v = (if u then - 1 else 1) * real (nat \<bar>v\<bar>)"
      by (simp add: u)
    have "valof (Finite s m e) + valof (Finite t n f) = real_of_int v * 2 powi min e f"
      by (simp only: exact)
    also have "\<dots> = (if u then - 1 else 1) * (real (nat \<bar>v\<bar>) * 2 powi min e f)"
      by (simp only: sgn mult.assoc)
    finally have total: "valof (Finite s m e) + valof (Finite t n f) =
        (if u then - 1 else 1) * (real (nat \<bar>v\<bar>) * 2 powi min e f)" .
    have "valof (Finite u k g) = (if u then - 1 else 1) * (real k * 2 powi g)"
      by simp
    then show ?thesis using c err by (simp only: total abs_flip)
  qed
qed

lemma dsub_nearest:
  assumes "dsub (Finite s m e) (Finite t n f) = Finite u k g"
  shows "canonical k g \<and>
         \<bar>valof (Finite u k g) - (valof (Finite s m e) - valof (Finite t n f))\<bar> \<le> 2 powi g / 2"
proof -
  have neg: "valof (Finite (\<not> t) n f) = - valof (Finite t n f)" by simp
  from assms have "dadd (Finite s m e) (Finite (\<not> t) n f) = Finite u k g"
    by (simp add: dsub_def)
  from dadd_nearest [OF this] show ?thesis
    by (simp only: neg add_uminus_conv_diff)
qed

subsection \<open>Arithmetic of int without overflow\<close>

lemma sint_int32_range: "- 2147483648 \<le> sint (x :: int32) \<and> sint x \<le> 2147483647"
  using sint_ge [of x] sint_lt [of x] by simp

lemma sint_sub_exact:
  fixes a b :: int32
  assumes "- 2147483648 \<le> sint a - sint b" and "sint a - sint b \<le> INT_MAX"
  shows "sint (a - b) = sint a - sint b"
proof -
  have "sint (a - b) = signed_take_bit 31 (sint a - sint b)"
    by (simp add: sint_word_ariths)
  also have "\<dots> = sint a - sint b"
    using assms by (intro signed_take_bit_int_eq_self) (simp_all add: INT_MAX_def)
  finally show ?thesis .
qed

lemma sint_add_exact:
  fixes a b :: int32
  assumes "- 2147483648 \<le> sint a + sint b" and "sint a + sint b \<le> INT_MAX"
  shows "sint (a + b) = sint a + sint b"
proof -
  have "sint (a + b) = signed_take_bit 31 (sint a + sint b)"
    by (simp add: sint_word_ariths)
  also have "\<dots> = sint a + sint b"
    using assms by (intro signed_take_bit_int_eq_self) (simp_all add: INT_MAX_def)
  finally show ?thesis .
qed

subsection \<open>Product::sellProduct\<close>

lemma sellProduct_success:
  "sint q \<le> sint (stockQuantity p) \<Longrightarrow>
     Product_sellProduct q p = (True, p\<lparr>stockQuantity := stockQuantity p - q\<rparr>)"
  by (simp add: Product_sellProduct_def)

lemma sellProduct_failure:
  "sint (stockQuantity p) < sint q \<Longrightarrow> Product_sellProduct q p = (False, p)"
  by (simp add: Product_sellProduct_def)

lemma sellProduct_exact:
  assumes "sint q \<le> sint (stockQuantity p)" and "sint (stockQuantity p) - sint q \<le> INT_MAX"
  shows "sint (stockQuantity (snd (Product_sellProduct q p))) = sint (stockQuantity p) - sint q"
  using assms by (simp add: Product_sellProduct_def sint_sub_exact)

lemma sellProduct_in_range:
  assumes "0 \<le> sint q" and "sint q \<le> sint (stockQuantity p)"
  shows "sint (stockQuantity p) - sint q \<le> INT_MAX"
  using assms sint_int32_range [of "stockQuantity p"] by (simp add: INT_MAX_def)

lemma sellProduct_keeps_nonneg:
  assumes "0 \<le> sint q" and "0 \<le> sint (stockQuantity p)"
  shows "0 \<le> sint (stockQuantity (snd (Product_sellProduct q p)))"
proof (cases "sint q \<le> sint (stockQuantity p)")
  case True
  with assms sellProduct_exact [OF True sellProduct_in_range [OF assms(1) True]]
  show ?thesis by simp
next
  case False
  with assms show ?thesis by (simp add: Product_sellProduct_def)
qed

lemma sell_requests_keep_nonneg:
  "0 \<le> sint (stockQuantity p) \<Longrightarrow> \<forall>q \<in> set qs. 0 \<le> sint q \<Longrightarrow>
     0 \<le> sint (stockQuantity (sell_requests qs p))"
  by (induction qs arbitrary: p) (simp_all add: sellProduct_keeps_nonneg)

lemma sellProduct_positive_exact:
  assumes "0 < sint q" and "sint q \<le> sint (stockQuantity p)"
  shows "sint (stockQuantity (snd (Product_sellProduct q p))) = sint (stockQuantity p) - sint q"
proof -
  from assms have "0 \<le> sint q" by simp
  from sellProduct_in_range [OF this assms(2)] assms(2) show ?thesis
    by (rule sellProduct_exact [rotated])
qed

lemma sell_requests_positive:
  "0 \<le> sint (stockQuantity p) \<Longrightarrow> \<forall>r \<in> set qs. 0 < sint r \<Longrightarrow>
     0 \<le> sint (stockQuantity (sell_requests qs p))"
  by (rule sell_requests_keep_nonneg) auto

text \<open>
  C1. For a sale request, that is a call \<^verbatim>\<open>sellProduct(quantity)\<close> with a positive
  quantity, on any product in any state: with \<open>stockQuantity \<ge> quantity\<close> the call
  reports success and decrements the stock by the quantity, and the stock it leaves is
  exactly \<open>stock - quantity\<close> and is not negative; otherwise it reports failure and
  leaves the object as it was. So no sale request takes a stock that is not negative to a
  negative one, whatever calls came before it, and along every sequence of sale
  requests a stock that is not negative stays so.
\<close>

theorem sellProduct_guards_stock:
  "(0 < sint q \<longrightarrow>
      (sint q \<le> sint (stockQuantity p) \<longrightarrow>
         Product_sellProduct q p = (True, p\<lparr>stockQuantity := stockQuantity p - q\<rparr>) \<and>
         sint (stockQuantity (snd (Product_sellProduct q p))) =
           sint (stockQuantity p) - sint q \<and>
         0 \<le> sint (stockQuantity (snd (Product_sellProduct q p)))) \<and>
      (\<not> sint q \<le> sint (stockQuantity p) \<longrightarrow> Product_sellProduct q p = (False, p)) \<and>
      (0 \<le> sint (stockQuantity p) \<longrightarrow>
         0 \<le> sint (stockQuantity (snd (Product_sellProduct q p))))) \<and>
   (0 \<le> sint (stockQuantity p) \<and> (\<forall>r \<in> set qs. 0 < sint r) \<longrightarrow>
      0 \<le> sint (stockQuantity (sell_requests qs p)))"
proof -
  have sold: "Product_sellProduct q p = (True, p\<lparr>stockQuantity := stockQuantity p - q\<rparr>) \<and>
       sint (stockQuantity (snd (Product_sellProduct q p))) = sint (stockQuantity p) - sint q \<and>
       0 \<le> sint (stockQuantity (snd (Product_sellProduct q p)))"
    if "0 < sint q" and "sint q \<le> sint (stockQuantity p)"
    using that sellProduct_success [OF that(2)] sellProduct_positive_exact [OF that] by simp
  have refused: "Product_sellProduct q p = (False, p)" if "\<not> sint q \<le> sint (stockQuantity p)"
    using that by (simp add: Product_sellProduct_def)
  have kept: "0 \<le> sint (stockQuantity (snd (Product_sellProduct q p)))"
    if "0 < sint q" and "0 \<le> sint (stockQuantity p)"
    using that by (intro sellProduct_keeps_nonneg) simp_all
  show ?thesis
    using sold refused kept sell_requests_positive [of p qs] by blast
qed

text \<open>The theorem at a stock of 5: a sale of 3, a refused sale of 9, and the three requests 3, 9, 1.\<close>

theorem sellProduct_guards_stock_witness:
  "0 < sint (3 :: int32) \<and> sint (3 :: int32) \<le> sint (stockQuantity widget) \<and>
   Product_sellProduct 3 widget = (True, widget\<lparr>stockQuantity := 2\<rparr>) \<and>
   sint (stockQuantity (snd (Product_sellProduct 3 widget))) = 2 \<and>
   0 < sint (9 :: int32) \<and> \<not> sint (9 :: int32) \<le> sint (stockQuantity widget) \<and>
   Product_sellProduct 9 widget = (False, widget) \<and>
   0 \<le> sint (stockQuantity widget) \<and> 0 < sint (1 :: int32) \<and>
   sint (stockQuantity (sell_requests [3, 9, 1] widget)) = 1"
  using sellProduct_guards_stock [of 3 widget "[3, 9, 1]"]
    sellProduct_guards_stock [of 9 widget "[]"]
  by (simp add: widget_def Product_sellProduct_def)

subsection \<open>The log, the map and the store under each operation\<close>

lemma logTransaction_int_fields [simp]:
  "heap (logTransaction_int t n q w) = heap w"
  "inventory (logTransaction_int t n q w) = inventory w"
  "inventory_txt (logTransaction_int t n q w) = inventory_txt w"
  "console (logTransaction_int t n q w) = console w"
  "clock (logTransaction_int t n q w) = clock w"
  "clock_reads (logTransaction_int t n q w) = clock_reads w + 1"
  "transaction_log (logTransaction_int t n q w) =
     transaction_log w @ [\<lparr>stamp = clock w (clock_reads w), event = t, subject = n,
                            magnitude = Quantity q\<rparr>]"
  by (simp_all add: logTransaction_int_def)

lemma logTransaction_double_fields [simp]:
  "heap (logTransaction_double t n x w) = heap w"
  "inventory (logTransaction_double t n x w) = inventory w"
  "inventory_txt (logTransaction_double t n x w) = inventory_txt w"
  "console (logTransaction_double t n x w) = console w"
  "clock (logTransaction_double t n x w) = clock w"
  "clock_reads (logTransaction_double t n x w) = clock_reads w + 1"
  "transaction_log (logTransaction_double t n x w) =
     transaction_log w @ [\<lparr>stamp = clock w (clock_reads w), event = t, subject = n,
                            magnitude = Discount x\<rparr>]"
  by (simp_all add: logTransaction_double_def)

lemma map_of_map_assign_same: "map_of (map_assign k v es) k = Some v"
  by (induction es) auto

lemma addProduct_present:
  assumes "map_of (inventory w) (productName (heap w a)) \<noteq> None"
  shows "inventory (addProduct a w) = inventory w"
    and "transaction_log (addProduct a w) = transaction_log w"
    and "inventory_txt (addProduct a w) = inventory_txt w"
  using assms by (simp_all add: addProduct_def)

lemma addProduct_heap [simp]: "heap (addProduct a w) = heap w"
  by (simp add: addProduct_def)

lemma addProduct_finds_name:
  "map_of (inventory (addProduct a w)) (productName (heap w a)) \<noteq> None"
  by (simp add: addProduct_def map_of_map_assign_same)

lemma addProduct_same_name_again:
  assumes "productName (heap w b) = productName (heap w a)"
  shows "inventory (addProduct b (addProduct a w)) = inventory (addProduct a w)"
proof -
  have "map_of (inventory (addProduct a w)) (productName (heap (addProduct a w) b)) \<noteq> None"
    using addProduct_finds_name [of a w] assms by simp
  then show ?thesis by (rule addProduct_present(1))
qed

lemma sell_absent:
  "map_of (inventory w) name = None \<Longrightarrow> InventoryManager_sellProduct name q w = (False, w)"
  by (simp add: InventoryManager_sellProduct_def)

lemma sell_insufficient:
  "map_of (inventory w) name = Some a \<Longrightarrow> sint (stockQuantity (heap w a)) < sint q \<Longrightarrow>
     InventoryManager_sellProduct name q w = (False, w)"
  by (simp add: InventoryManager_sellProduct_def Product_sellProduct_def)

lemma sell_sufficient:
  "map_of (inventory w) name = Some a \<Longrightarrow> sint q \<le> sint (stockQuantity (heap w a)) \<Longrightarrow>
     InventoryManager_sellProduct name q w =
       (True, logTransaction_int ''Sale'' name q
                (w\<lparr>heap := (heap w)
                     (a := (heap w a)\<lparr>stockQuantity := stockQuantity (heap w a) - q\<rparr>)\<rparr>))"
  by (simp add: InventoryManager_sellProduct_def Product_sellProduct_def)

lemma sell_log_cases:
  "transaction_log (snd (InventoryManager_sellProduct name q w)) =
     (if fst (InventoryManager_sellProduct name q w)
      then transaction_log w @ [\<lparr>stamp = clock w (clock_reads w), event = ''Sale'',
                                   subject = name, magnitude = Quantity q\<rparr>]
      else transaction_log w)"
  by (simp add: InventoryManager_sellProduct_def split: option.split)

lemmas shop_eval = shop_def empty_shop_def shop_heap_def widget_def apple_def gadget_def

subsection \<open>addProduct on a name that is taken\<close>

text \<open>
  C3. When the catalog has an entry for the name of the product passed to
  \<^verbatim>\<open>addProduct\<close>, the call changes neither the map (so the entry still points to the
  object it pointed to, and the size is the same) nor any object, nor a file. Hence
  adding a name a second time, with the same object or with another object of that
  name, leaves the catalog as the first call left it, and the set of names is the same.
\<close>

theorem addProduct_duplicate_is_noop:
  "(map_of (inventory w) (productName (heap w a)) \<noteq> None \<longrightarrow>
      inventory (addProduct a w) = inventory w \<and>
      heap (addProduct a w) = heap w \<and>
      length (inventory (addProduct a w)) = length (inventory w) \<and>
      transaction_log (addProduct a w) = transaction_log w \<and>
      inventory_txt (addProduct a w) = inventory_txt w) \<and>
   (productName (heap w b) = productName (heap w a) \<longrightarrow>
      inventory (addProduct b (addProduct a w)) = inventory (addProduct a w) \<and>
      heap (addProduct b (addProduct a w)) = heap (addProduct a w)) \<and>
   inventory (addProduct a (addProduct a w)) = inventory (addProduct a w) \<and>
   fst ` set (inventory (addProduct a (addProduct a w))) = fst ` set (inventory (addProduct a w))"
  using addProduct_present [of w a] addProduct_same_name_again [of w b a]
    addProduct_same_name_again [of w a a]
  by simp

text \<open>
  The theorem on the shop, where Widget is taken by object 0, and on the empty shop,
  where object 0 and then object 3, both named Widget, are added.
\<close>

theorem addProduct_duplicate_is_noop_witness:
  "map_of (inventory shop) (productName (heap shop 0)) \<noteq> None \<and>
   inventory (addProduct 0 shop) = [(''Apple'', 1), (''Gadget'', 2), (''Widget'', 0)] \<and>
   heap (addProduct 0 shop) = heap shop \<and>
   productName (heap empty_shop 3) = productName (heap empty_shop 0) \<and>
   inventory (addProduct 0 empty_shop) = [(''Widget'', 0)] \<and>
   inventory (addProduct 3 (addProduct 0 empty_shop)) = [(''Widget'', 0)]"
  using addProduct_duplicate_is_noop [of shop 0 0] addProduct_duplicate_is_noop [of empty_shop 0 3]
  by (simp add: shop_eval addProduct_def)

subsection \<open>InventoryManager::sellProduct: the failures\<close>

text \<open>
  C4. A call \<^verbatim>\<open>sellProduct(name, quantity)\<close> on a name the catalog does not hold
  returns false and leaves the whole state as it was: no line in the log, no change to
  the map or to an object. On a name it holds, with less stock than the quantity, it
  returns false and leaves the whole state as it was too. A line is appended to the log
  exactly when the call returns true, and it is the Sale line of that name and quantity.
\<close>

theorem sell_failure_leaves_state:
  "(map_of (inventory w) name = None \<longrightarrow>
      InventoryManager_sellProduct name q w = (False, w)) \<and>
   (map_of (inventory w) name = Some a \<and> sint (stockQuantity (heap w a)) < sint q \<longrightarrow>
      InventoryManager_sellProduct name q w = (False, w)) \<and>
   (map_of (inventory w) name = Some a \<and> sint q \<le> sint (stockQuantity (heap w a)) \<longrightarrow>
      fst (InventoryManager_sellProduct name q w)) \<and>
   transaction_log (snd (InventoryManager_sellProduct name q w)) =
     (if fst (InventoryManager_sellProduct name q w)
      then transaction_log w @ [\<lparr>stamp = clock w (clock_reads w), event = ''Sale'',
                                   subject = name, magnitude = Quantity q\<rparr>]
      else transaction_log w)"
  using sell_absent [of w name q] sell_insufficient [of w name a q]
    sell_sufficient [of w name a q] sell_log_cases [of name q w]
  by simp

text \<open>
  The theorem on the shop: a sale of an unknown name, a sale of 9 Widgets out of 5, and
  a sale of 3 Widgets.
\<close>

theorem sell_failure_leaves_state_witness:
  "map_of (inventory shop) ''Sprocket'' = None \<and>
   InventoryManager_sellProduct ''Sprocket'' 3 shop = (False, shop) \<and>
   map_of (inventory shop) ''Widget'' = Some 0 \<and>
   sint (stockQuantity (heap shop 0)) < sint (9 :: int32) \<and>
   InventoryManager_sellProduct ''Widget'' 9 shop = (False, shop) \<and>
   sint (3 :: int32) \<le> sint (stockQuantity (heap shop 0)) \<and>
   fst (InventoryManager_sellProduct ''Widget'' 3 shop) \<and>
   transaction_log (snd (InventoryManager_sellProduct ''Widget'' 3 shop)) =
     [\<lparr>stamp = 1746800000, event = ''Sale'', subject = ''Widget'', magnitude = Quantity 3\<rparr>]"
  using sell_failure_leaves_state [of shop "''Sprocket''" 3 0]
    sell_failure_leaves_state [of shop "''Widget''" 9 0]
    sell_failure_leaves_state [of shop "''Widget''" 3 0]
  by (simp add: shop_eval)

text \<open>
  C10. The two failures of \<^verbatim>\<open>sellProduct(name, quantity)\<close> give the caller the same
  outcome: for a name the catalog does not hold and for a name it holds with less
  stock than the quantity, the call returns false and the state after it (objects, map,
  log, file, console) is the state before it, so nothing tells one cause from the other.
\<close>

theorem sell_failures_indistinguishable:
  "map_of (inventory w) unknown = None \<and> map_of (inventory w) known = Some a \<and>
   sint (stockQuantity (heap w a)) < sint q \<longrightarrow>
     InventoryManager_sellProduct unknown q' w = InventoryManager_sellProduct known q w \<and>
     InventoryManager_sellProduct known q w = (False, w)"
  by (simp add: sell_absent sell_insufficient)

text \<open>The theorem on the shop: an unknown name against 9 Widgets out of 5.\<close>

theorem sell_failures_indistinguishable_witness:
  "map_of (inventory shop) ''Sprocket'' = None \<and> map_of (inventory shop) ''Widget'' = Some 0 \<and>
   sint (stockQuantity (heap shop 0)) < sint (9 :: int32) \<and>
   InventoryManager_sellProduct ''Sprocket'' 9 shop = InventoryManager_sellProduct ''Widget'' 9 shop \<and>
   InventoryManager_sellProduct ''Widget'' 9 shop = (False, shop)"
  using sell_failures_indistinguishable [of shop "''Sprocket''" "''Widget''" 0 9 9]
  by (simp add: shop_eval)

subsection \<open>Discounts\<close>

text \<open>Evaluation of the arithmetic of \<^verbatim>\<open>double\<close> on numerals.\<close>

lemma bit_length_numeral:
  "bit_length (numeral k) = bit_length (numeral k div 2) + 1"
  "bit_length 0 = 0" "bit_length 1 = 1" "bit_length (Suc 0) = 1"
  by (simp_all add: bit_length.simps)

lemmas double_eval = double_of_int_def round_double_def round_ratio_def round_at_def pack_def
  floor_log2_def floor_log2_from_def round_half_even_def ties_to_even_def dsub_def round_sum_def
  signed_def bit_length_numeral

lemma hundred: "double_of_int 100 = Finite False 7036874417766400 (- 46)"
  by (simp add: double_eval)

lemma twenty_percent_off:
  "dsub (double_of_int 100) (dmul (double_of_int 100) (ddiv (double_of_int 20) (double_of_int 100)))
     = double_of_int 80"
  by (simp add: double_eval)

lemma two_hundred_percent_off:
  "dsub (double_of_int 100) (dmul (double_of_int 100) (ddiv (double_of_int 200) (double_of_int 100)))
     = double_of_int (- 100)"
  by (simp add: double_eval)

lemma minus_hundred_negative: "is_negative (double_of_int (- 100))"
  by (simp add: double_eval)

lemma applyDiscount_present:
  assumes "map_of (inventory w) name = Some a"
  shows "heap (InventoryManager_applyDiscount name pct w) =
           (heap w)(a := Product_applyDiscount pct (heap w a))"
    and "transaction_log (InventoryManager_applyDiscount name pct w) =
           transaction_log w @ [\<lparr>stamp = clock w (clock_reads w), event = ''Discount'',
                                  subject = name, magnitude = Discount pct\<rparr>]"
  using assms by (simp_all add: InventoryManager_applyDiscount_def)

text \<open>
  Checks of the model of \<^verbatim>\<open>double\<close> against known bit patterns: 0.1 is
  \<open>0x1999999999999A * 2\<^sup>-\<^sup>5\<^sup>6\<close>, the sum 0.1 + 0.2 is not 0.3 but the next number above
  it, and the largest finite number times 2 is infinity.
\<close>

lemma double_reference_values:
  "ddiv (double_of_int 1) (double_of_int 10) = Finite False 0x1999999999999A (- 56)"
  "dadd (ddiv (double_of_int 1) (double_of_int 10)) (ddiv (double_of_int 2) (double_of_int 10))
     = Finite False 0x13333333333334 (- 54)"
  "ddiv (double_of_int 3) (double_of_int 10) = Finite False 0x13333333333333 (- 54)"
  "dmul (Finite False (2 ^ 53 - 1) 971) (double_of_int 2) = Infinity False"
  by (simp_all add: double_eval)

text \<open>
  The three roundings of a discount, each within half a unit in the last place of its
  exact result, and the distance they leave between the stored price and the real
  number \<open>P - P * p / 100\<close>.
\<close>

lemma valof_hundred: "valof (double_of_int 100) = 100"
  by (simp add: hundred)

lemma discount_error_bound:
  assumes P: "price p = Finite s m e" and pct: "pct = Finite t n f"
    and quot: "ddiv pct (double_of_int 100) = Finite a k1 g1"
    and prod: "dmul (price p) (Finite a k1 g1) = Finite b k2 g2"
    and diff: "price (Product_applyDiscount pct p) = Finite c k3 g3"
  shows "canonical k3 g3"
    and "\<bar>valof (Finite a k1 g1) - valof pct / 100\<bar> \<le> 2 powi g1 / 2"
    and "\<bar>valof (Finite b k2 g2) - valof (price p) * valof (Finite a k1 g1)\<bar> \<le> 2 powi g2 / 2"
    and "\<bar>valof (Finite c k3 g3) - (valof (price p) - valof (Finite b k2 g2))\<bar> \<le> 2 powi g3 / 2"
    and "\<bar>valof (price (Product_applyDiscount pct p))
            - (valof (price p) - valof (price p) * valof pct / 100)\<bar>
         \<le> 2 powi g3 / 2 + 2 powi g2 / 2 + \<bar>valof (price p)\<bar> * (2 powi g1 / 2)"
proof -
  define x y r1 r2 r3 where "x = valof (price p)" and "y = valof pct"
    and "r1 = valof (Finite a k1 g1)" and "r2 = valof (Finite b k2 g2)"
    and "r3 = valof (Finite c k3 g3)"
  from quot have "ddiv (Finite t n f) (Finite False 7036874417766400 (- 46)) = Finite a k1 g1"
    by (simp only: pct hundred)
  from ddiv_nearest [OF _ this]
  have "\<bar>valof (Finite a k1 g1) - valof (Finite t n f) / valof (Finite False 7036874417766400 (- 46))\<bar>
      \<le> 2 powi g1 / 2"
    by simp
  then have e1: "\<bar>r1 - y / 100\<bar> \<le> 2 powi g1 / 2"
    using valof_hundred by (simp only: r1_def y_def pct hundred)
  from prod have "dmul (Finite s m e) (Finite a k1 g1) = Finite b k2 g2" by (simp only: P)
  from dmul_nearest [OF this] have e2: "\<bar>r2 - x * r1\<bar> \<le> 2 powi g2 / 2"
    by (simp only: r2_def x_def r1_def P)
  have "price (Product_applyDiscount pct p) =
      dsub (price p) (dmul (price p) (ddiv pct (double_of_int 100)))"
    by (simp add: Product_applyDiscount_def)
  also have "\<dots> = dsub (price p) (Finite b k2 g2)" by (simp only: quot prod)
  finally have "dsub (price p) (Finite b k2 g2) = Finite c k3 g3" using diff by simp
  then have "dsub (Finite s m e) (Finite b k2 g2) = Finite c k3 g3" by (simp only: P)
  from dsub_nearest [OF this]
  have c3: "canonical k3 g3" and e3: "\<bar>r3 - (x - r2)\<bar> \<le> 2 powi g3 / 2"
    by (simp_all only: r3_def x_def r2_def P)
  have "\<bar>x * r1 - x * y / 100\<bar> = \<bar>x\<bar> * \<bar>r1 - y / 100\<bar>"
    by (simp add: abs_mult [symmetric] right_diff_distrib)
  also have "\<dots> \<le> \<bar>x\<bar> * (2 powi g1 / 2)"
    using e1 by (intro mult_left_mono) simp_all
  finally have e4: "\<bar>x * r1 - x * y / 100\<bar> \<le> \<bar>x\<bar> * (2 powi g1 / 2)" .
  have total: "\<bar>r3 - (x - x * y / 100)\<bar> \<le> 2 powi g3 / 2 + 2 powi g2 / 2 + \<bar>x\<bar> * (2 powi g1 / 2)"
    using e2 e3 e4 by linarith
  show "canonical k3 g3" by (rule c3)
  show "\<bar>valof (Finite a k1 g1) - valof pct / 100\<bar> \<le> 2 powi g1 / 2"
    using e1 by (simp only: r1_def y_def)
  show "\<bar>valof (Finite b k2 g2) - valof (price p) * valof (Finite a k1 g1)\<bar> \<le> 2 powi g2 / 2"
    using e2 by (simp only: r2_def x_def r1_def)
  show "\<bar>valof (Finite c k3 g3) - (valof (price p) - valof (Finite b k2 g2))\<bar> \<le> 2 powi g3 / 2"
    using e3 by (simp only: r3_def x_def r2_def)
  show "\<bar>valof (price (Product_applyDiscount pct p))
            - (valof (price p) - valof (price p) * valof pct / 100)\<bar>
         \<le> 2 powi g3 / 2 + 2 powi g2 / 2 + \<bar>valof (price p)\<bar> * (2 powi g1 / 2)"
    using total by (simp only: diff r3_def x_def y_def)
qed

text \<open>A price of 1.0 discounted by 7, step by step, and the double nearest to 0.93.\<close>

lemma seven_percent_steps:
  "double_of_int 1 = Finite False 4503599627370496 (- 52)"
  "double_of_int 7 = Finite False 7881299347898368 (- 50)"
  "ddiv (double_of_int 7) (double_of_int 100) = Finite False 5044031582654956 (- 56)"
  "dmul (double_of_int 1) (Finite False 5044031582654956 (- 56))
     = Finite False 5044031582654956 (- 56)"
  "dsub (double_of_int 1) (Finite False 5044031582654956 (- 56))
     = Finite False 8376695306909122 (- 53)"
  "round_double False 93 100 0 = Finite False 8376695306909123 (- 53)"
  by (simp_all add: double_eval)

text \<open>A price of 3.0 discounted by 19: \<open>P - P * (p / 100)\<close> against \<open>P - (P * p) / 100\<close>.\<close>

lemma grouping_matters:
  "dsub (double_of_int 3) (dmul (double_of_int 3) (ddiv (double_of_int 19) (double_of_int 100)))
     = Finite False 5471873547255152 (- 51)"
  "dsub (double_of_int 3) (ddiv (dmul (double_of_int 3) (double_of_int 19)) (double_of_int 100))
     = Finite False 5471873547255153 (- 51)"
  by (simp_all add: double_eval)

text \<open>
  C5, as amended. \<^verbatim>\<open>Product::applyDiscount(p)\<close> on a price \<open>P\<close> stores the double
  \<open>P - P * (p / 100)\<close>, grouped as the source groups it, where the quotient, the
  product and the difference are each rounded to the nearest double, ties to even; it
  changes no other field and refuses no value of \<open>p\<close>. When the operands and the three
  results are finite, each result is within half a unit in its last place of the exact
  result of its operation, and the stored price differs from the real number
  \<open>P - P * p / 100\<close> by at most the sum of the three half units, the one of the quotient
  scaled by \<open>|P|\<close>. On a name the catalog holds,
  \<^verbatim>\<open>InventoryManager::applyDiscount(name, p)\<close> applies it to that object alone and
  appends exactly one line to the log, the Discount line of that name with \<open>p\<close>. A
  price of 100.0 discounted by 20 becomes exactly 80.0; discounted by 200 it becomes
  -100.0, a negative price.
\<close>

theorem discount_sets_price:
  "price (Product_applyDiscount pct p) =
     dsub (price p) (dmul (price p) (ddiv pct (double_of_int 100))) \<and>
   productName (Product_applyDiscount pct p) = productName p \<and>
   stockQuantity (Product_applyDiscount pct p) = stockQuantity p \<and>
   kind (Product_applyDiscount pct p) = kind p \<and>
   (price p = Finite s m e \<and> pct = Finite t n f \<and>
    ddiv pct (double_of_int 100) = Finite a1 k1 g1 \<and>
    dmul (price p) (Finite a1 k1 g1) = Finite a2 k2 g2 \<and>
    price (Product_applyDiscount pct p) = Finite a3 k3 g3 \<longrightarrow>
      canonical k3 g3 \<and>
      \<bar>valof (Finite a1 k1 g1) - valof pct / 100\<bar> \<le> 2 powi g1 / 2 \<and>
      \<bar>valof (Finite a2 k2 g2) - valof (price p) * valof (Finite a1 k1 g1)\<bar> \<le> 2 powi g2 / 2 \<and>
      \<bar>valof (Finite a3 k3 g3) - (valof (price p) - valof (Finite a2 k2 g2))\<bar> \<le> 2 powi g3 / 2 \<and>
      \<bar>valof (price (Product_applyDiscount pct p))
          - (valof (price p) - valof (price p) * valof pct / 100)\<bar>
        \<le> 2 powi g3 / 2 + 2 powi g2 / 2 + \<bar>valof (price p)\<bar> * (2 powi g1 / 2)) \<and>
   (map_of (inventory w) name = Some a \<longrightarrow>
      heap (InventoryManager_applyDiscount name pct w) =
        (heap w)(a := Product_applyDiscount pct (heap w a)) \<and>
      transaction_log (InventoryManager_applyDiscount name pct w) =
        transaction_log w @ [\<lparr>stamp = clock w (clock_reads w), event = ''Discount'',
                               subject = name, magnitude = Discount pct\<rparr>]) \<and>
   (price p = double_of_int 100 \<longrightarrow>
      price (Product_applyDiscount (double_of_int 20) p) = double_of_int 80 \<and>
      price (Product_applyDiscount (double_of_int 200) p) = double_of_int (- 100) \<and>
      is_negative (price (Product_applyDiscount (double_of_int 200) p)))"
proof -
  have fields: "price (Product_applyDiscount pct p) =
       dsub (price p) (dmul (price p) (ddiv pct (double_of_int 100))) \<and>
     productName (Product_applyDiscount pct p) = productName p \<and>
     stockQuantity (Product_applyDiscount pct p) = stockQuantity p \<and>
     kind (Product_applyDiscount pct p) = kind p"
    by (simp add: Product_applyDiscount_def)
  have instances: "price (Product_applyDiscount (double_of_int 20) p) = double_of_int 80 \<and>
      price (Product_applyDiscount (double_of_int 200) p) = double_of_int (- 100) \<and>
      is_negative (price (Product_applyDiscount (double_of_int 200) p))"
    if "price p = double_of_int 100"
    using that
    by (simp add: Product_applyDiscount_def twenty_percent_off two_hundred_percent_off
        minus_hundred_negative)
  show ?thesis
    using fields instances applyDiscount_present [of w name a pct]
      discount_error_bound [of p s m e pct t n f a1 k1 g1 a2 k2 g2 a3 k3 g3]
    by blast
qed

text \<open>
  The theorem on a price of 1.0 discounted by 7, and on the shop, where Gadget costs
  100.0, discounted by 20.
\<close>

theorem discount_sets_price_witness:
  "price one_item = Finite False 4503599627370496 (- 52) \<and>
   double_of_int 7 = Finite False 7881299347898368 (- 50) \<and>
   ddiv (double_of_int 7) (double_of_int 100) = Finite False 5044031582654956 (- 56) \<and>
   dmul (price one_item) (Finite False 5044031582654956 (- 56))
     = Finite False 5044031582654956 (- 56) \<and>
   price (Product_applyDiscount (double_of_int 7) one_item)
     = Finite False 8376695306909122 (- 53) \<and>
   canonical 8376695306909122 (- 53) \<and>
   \<bar>valof (price (Product_applyDiscount (double_of_int 7) one_item))
       - (valof (price one_item) - valof (price one_item) * valof (double_of_int 7) / 100)\<bar>
     \<le> 2 powi (- 53) / 2 + 2 powi (- 56) / 2 + \<bar>valof (price one_item)\<bar> * (2 powi (- 56) / 2) \<and>
   map_of (inventory shop) ''Gadget'' = Some 2 \<and>
   price (heap shop 2) = double_of_int 100 \<and>
   price (heap (InventoryManager_applyDiscount ''Gadget'' (double_of_int 20) shop) 2) =
     double_of_int 80 \<and>
   double_of_int 80 = Finite False 5629499534213120 (- 46) \<and>
   transaction_log (InventoryManager_applyDiscount ''Gadget'' (double_of_int 20) shop) =
     [\<lparr>stamp = 1746800000, event = ''Discount'', subject = ''Gadget'',
       magnitude = Discount (double_of_int 20)\<rparr>]"
proof -
  note bolt = discount_sets_price
      [where p = one_item and pct = "double_of_int 7" and s = False
         and m = 4503599627370496 and e = "- 52" and t = False and n = 7881299347898368
         and f = "- 50" and ?a1.0 = False and ?k1.0 = 5044031582654956 and ?g1.0 = "- 56"
         and ?a2.0 = False and ?k2.0 = 5044031582654956 and ?g2.0 = "- 56"
         and ?a3.0 = False and ?k3.0 = 8376695306909122 and ?g3.0 = "- 53"
         and w = shop and name = "''Gadget''" and a = 2]
  note gadget_case = discount_sets_price
      [where p = gadget and pct = "double_of_int 20" and w = shop and name = "''Gadget''"
         and a = 2]
  have P: "price one_item = Finite False 4503599627370496 (- 52)"
    by (simp add: one_item_def seven_percent_steps(1))
  have pct: "double_of_int 7 = Finite False 7881299347898368 (- 50)"
    by (rule seven_percent_steps(2))
  have quot: "ddiv (double_of_int 7) (double_of_int 100) = Finite False 5044031582654956 (- 56)"
    by (rule seven_percent_steps(3))
  have prod: "dmul (price one_item) (Finite False 5044031582654956 (- 56))
      = Finite False 5044031582654956 (- 56)"
    by (simp add: one_item_def seven_percent_steps(4))
  have diff: "price (Product_applyDiscount (double_of_int 7) one_item)
      = Finite False 8376695306909122 (- 53)"
    by (simp add: Product_applyDiscount_def one_item_def seven_percent_steps(3,4,5))
  from bolt P pct quot prod diff
  have c: "canonical 8376695306909122 (- 53)" by blast
  from bolt P pct quot prod diff
  have bound: "\<bar>valof (price (Product_applyDiscount (double_of_int 7) one_item))
       - (valof (price one_item) - valof (price one_item) * valof (double_of_int 7) / 100)\<bar>
     \<le> 2 powi (- 53) / 2 + 2 powi (- 56) / 2 + \<bar>valof (price one_item)\<bar> * (2 powi (- 56) / 2)"
    by blast
  have found: "map_of (inventory shop) ''Gadget'' = Some 2" by (simp add: shop_eval)
  have costs: "price (heap shop 2) = double_of_int 100" "heap shop 2 = gadget"
    "price gadget = double_of_int 100"
    by (simp_all add: shop_eval)
  from gadget_case found
  have "heap (InventoryManager_applyDiscount ''Gadget'' (double_of_int 20) shop) =
      (heap shop)(2 := Product_applyDiscount (double_of_int 20) (heap shop 2))"
    by blast
  then have "price (heap (InventoryManager_applyDiscount ''Gadget'' (double_of_int 20) shop) 2) =
      price (Product_applyDiscount (double_of_int 20) gadget)"
    by (simp add: costs(2))
  also from gadget_case costs(3)
  have "price (Product_applyDiscount (double_of_int 20) gadget) = double_of_int 80"
    by blast
  finally have after: "price (heap (InventoryManager_applyDiscount ''Gadget'' (double_of_int 20) shop) 2)
      = double_of_int 80" .
  have eighty: "double_of_int 80 = Finite False 5629499534213120 (- 46)"
    by (simp add: double_eval)
  from gadget_case found
  have "transaction_log (InventoryManager_applyDiscount ''Gadget'' (double_of_int 20) shop) =
      transaction_log shop @ [\<lparr>stamp = clock shop (clock_reads shop), event = ''Discount'',
                                 subject = ''Gadget'', magnitude = Discount (double_of_int 20)\<rparr>]"
    by blast
  also have "\<dots> = [\<lparr>stamp = 1746800000, event = ''Discount'', subject = ''Gadget'',
       magnitude = Discount (double_of_int 20)\<rparr>]"
    by (simp add: shop_eval)
  finally have log: "transaction_log (InventoryManager_applyDiscount ''Gadget'' (double_of_int 20) shop) =
     [\<lparr>stamp = 1746800000, event = ''Discount'', subject = ''Gadget'',
       magnitude = Discount (double_of_int 20)\<rparr>]" .
  from P pct quot prod diff c bound found costs(1) after eighty log show ?thesis
    by (intro conjI)
qed

text \<open>
  C5 as stated fails, since the stored price is a rounded double: a price of 1.0
  discounted by 7 becomes \<open>8376695306909122 * 2\<^sup>-\<^sup>5\<^sup>3\<close>, which is not the number
  \<open>1 - 1 * 7 / 100\<close> and not even the double nearest to it; and the grouping
  \<open>P - (P * p) / 100\<close> gives another double than the source's at a price of 3.0
  discounted by 19.
\<close>

theorem discount_is_rounded_counterexample:
  "price one_item = double_of_int 1 \<and>
   price (Product_applyDiscount (double_of_int 7) one_item)
     = Finite False 8376695306909122 (- 53) \<and>
   valof (double_of_int 1) = 1 \<and> valof (double_of_int 7) = 7 \<and>
   valof (price (Product_applyDiscount (double_of_int 7) one_item)) \<noteq> 1 - 1 * 7 / 100 \<and>
   round_double False 93 100 0 = Finite False 8376695306909123 (- 53) \<and>
   price (Product_applyDiscount (double_of_int 7) one_item) \<noteq> round_double False 93 100 0 \<and>
   dsub (double_of_int 3) (dmul (double_of_int 3) (ddiv (double_of_int 19) (double_of_int 100)))
     \<noteq> dsub (double_of_int 3) (ddiv (dmul (double_of_int 3) (double_of_int 19)) (double_of_int 100))"
proof -
  have stored: "price (Product_applyDiscount (double_of_int 7) one_item)
      = Finite False 8376695306909122 (- 53)"
    by (simp add: Product_applyDiscount_def one_item_def seven_percent_steps(3,4,5))
  have one: "valof (double_of_int 1) = 1" and seven: "valof (double_of_int 7) = 7"
    by (simp_all add: seven_percent_steps(1,2))
  have off: "valof (Finite False 8376695306909122 (- 53)) \<noteq> 1 - 1 * 7 / 100"
    by simp
  show ?thesis
    using stored one seven off
    by (simp add: one_item_def seven_percent_steps(6) grouping_matters del: valof.simps)
qed

subsection \<open>InventoryManager::sellProduct with a quantity that is not positive\<close>

lemma sell_nonpositive_exact:
  assumes "0 \<le> sint (s :: int32)" and "sint q \<le> 0" and "sint s - sint q \<le> INT_MAX"
  shows "sint (s - q) = sint s - sint q"
  using assms by (intro sint_sub_exact) simp_all

text \<open>
  C9, as amended. Nothing in the two \<^verbatim>\<open>sellProduct\<close> functions tests the sign of the
  quantity. On a name the catalog holds, with a stock that is not negative and a
  quantity \<open>q \<le> 0\<close>, the call returns true, subtracts \<open>q\<close> from the stock in 32-bit
  arithmetic and appends the Sale line with the quantity \<open>q\<close>. Whenever \<open>stock - q\<close>
  does not exceed \<open>INT_MAX\<close> the new stock is exactly \<open>stock - q\<close>, so it is not
  below the old one, and above it for a negative \<open>q\<close>.
\<close>

theorem sell_nonpositive_quantity:
  "map_of (inventory w) name = Some a \<and> 0 \<le> sint (stockQuantity (heap w a)) \<and> sint q \<le> 0 \<longrightarrow>
     fst (InventoryManager_sellProduct name q w) \<and>
     stockQuantity (heap (snd (InventoryManager_sellProduct name q w)) a) =
       stockQuantity (heap w a) - q \<and>
     transaction_log (snd (InventoryManager_sellProduct name q w)) =
       transaction_log w @ [\<lparr>stamp = clock w (clock_reads w), event = ''Sale'',
                              subject = name, magnitude = Quantity q\<rparr>] \<and>
     (sint (stockQuantity (heap w a)) - sint q \<le> INT_MAX \<longrightarrow>
        sint (stockQuantity (heap (snd (InventoryManager_sellProduct name q w)) a)) =
          sint (stockQuantity (heap w a)) - sint q \<and>
        sint (stockQuantity (heap w a)) \<le>
          sint (stockQuantity (heap (snd (InventoryManager_sellProduct name q w)) a)) \<and>
        (sint q < 0 \<longrightarrow>
           sint (stockQuantity (heap w a)) <
             sint (stockQuantity (heap (snd (InventoryManager_sellProduct name q w)) a))))"
proof (intro impI, elim conjE)
  assume found: "map_of (inventory w) name = Some a"
    and stock: "0 \<le> sint (stockQuantity (heap w a))" and q: "sint q \<le> 0"
  from stock q have "sint q \<le> sint (stockQuantity (heap w a))" by simp
  note sold = sell_sufficient [OF found this]
  show "fst (InventoryManager_sellProduct name q w) \<and>
     stockQuantity (heap (snd (InventoryManager_sellProduct name q w)) a) =
       stockQuantity (heap w a) - q \<and>
     transaction_log (snd (InventoryManager_sellProduct name q w)) =
       transaction_log w @ [\<lparr>stamp = clock w (clock_reads w), event = ''Sale'',
                              subject = name, magnitude = Quantity q\<rparr>] \<and>
     (sint (stockQuantity (heap w a)) - sint q \<le> INT_MAX \<longrightarrow>
        sint (stockQuantity (heap (snd (InventoryManager_sellProduct name q w)) a)) =
          sint (stockQuantity (heap w a)) - sint q \<and>
        sint (stockQuantity (heap w a)) \<le>
          sint (stockQuantity (heap (snd (InventoryManager_sellProduct name q w)) a)) \<and>
        (sint q < 0 \<longrightarrow>
           sint (stockQuantity (heap w a)) <
             sint (stockQuantity (heap (snd (InventoryManager_sellProduct name q w)) a))))"
    using stock q by (simp add: sold sell_nonpositive_exact)
qed

text \<open>The theorem on the shop: a sale of -2 Widgets takes the stock from 5 to 7.\<close>

theorem sell_nonpositive_quantity_witness:
  "map_of (inventory shop) ''Widget'' = Some 0 \<and> 0 \<le> sint (stockQuantity (heap shop 0)) \<and>
   sint (- 2 :: int32) \<le> 0 \<and>
   fst (InventoryManager_sellProduct ''Widget'' (- 2) shop) \<and>
   sint (stockQuantity (heap shop 0)) - sint (- 2 :: int32) \<le> INT_MAX \<and>
   sint (stockQuantity (heap (snd (InventoryManager_sellProduct ''Widget'' (- 2) shop)) 0)) = 7 \<and>
   transaction_log (snd (InventoryManager_sellProduct ''Widget'' (- 2) shop)) =
     [\<lparr>stamp = 1746800000, event = ''Sale'', subject = ''Widget'', magnitude = Quantity (- 2)\<rparr>]"
  using sell_nonpositive_quantity [of shop "''Widget''" 0 "- 2"]
  by (simp add: shop_eval INT_MAX_def)

text \<open>
  C9 as stated fails on a full shelf: with a stock of \<open>INT_MAX\<close>, a sale of \<open>-1\<close>
  succeeds and the stock after it is below the stock before it.
\<close>

theorem sell_negative_quantity_counterexample:
  "map_of (inventory warehouse) ''Widget'' = Some 0 \<and>
   0 \<le> sint (stockQuantity (heap warehouse 0)) \<and> sint (- 1 :: int32) < 0 \<and>
   fst (InventoryManager_sellProduct ''Widget'' (- 1) warehouse) \<and>
   sint (stockQuantity (heap (snd (InventoryManager_sellProduct ''Widget'' (- 1) warehouse)) 0))
     < sint (stockQuantity (heap warehouse 0))"
  by (simp add: warehouse_def empty_shop_def widget_def InventoryManager_sellProduct_def
      Product_sellProduct_def)

subsection \<open>The log only grows\<close>

lemma updateStock_fields [simp]:
  "productName (updateStock n p) = productName p"
  "price (updateStock n p) = price p"
  "kind (updateStock n p) = kind p"
  "stockQuantity (updateStock n p) = stockQuantity p + n"
  by (simp_all add: updateStock_def)

lemma Product_applyDiscount_fields [simp]:
  "productName (Product_applyDiscount x p) = productName p"
  "stockQuantity (Product_applyDiscount x p) = stockQuantity p"
  "kind (Product_applyDiscount x p) = kind p"
  by (simp_all add: Product_applyDiscount_def)

lemma Product_sellProduct_fields [simp]:
  "productName (snd (Product_sellProduct q p)) = productName p"
  "price (snd (Product_sellProduct q p)) = price p"
  "kind (snd (Product_sellProduct q p)) = kind p"
  by (simp_all add: Product_sellProduct_def)

lemma restockProduct_fields [simp]:
  "heap (restockProduct a w) = (heap w)(a := updateStock restockAmount (heap w a))"
  "inventory (restockProduct a w) = inventory w"
  "inventory_txt (restockProduct a w) = inventory_txt w"
  "clock (restockProduct a w) = clock w"
  "clock_reads (restockProduct a w) = clock_reads w + 1"
  "transaction_log (restockProduct a w) =
     transaction_log w @ [\<lparr>stamp = clock w (clock_reads w), event = ''Restock'',
                            subject = productName (heap w a), magnitude = Quantity restockAmount\<rparr>]"
  by (simp_all add: restockProduct_def Let_def)

lemma restock_loop_fields [simp]:
  "inventory (restock_loop es th w) = inventory w"
  "inventory_txt (restock_loop es th w) = inventory_txt w"
  "clock (restock_loop es th w) = clock w"
  by (induction es th w rule: restock_loop.induct) simp_all

lemma restock_loop_prefix:
  "prefix (transaction_log w) (transaction_log (restock_loop es th w))"
proof (induction es th w rule: restock_loop.induct)
  case (1 th w)
  show ?case by simp
next
  case (2 k a es th w)
  have "prefix (transaction_log w)
          (transaction_log (if sint (stockQuantity (heap w a)) < sint th
                            then restockProduct a w else w))"
    by simp
  with 2 show ?case by (auto intro: prefix_order.trans simp del: restockProduct_fields)
qed

lemma step_prefix: "prefix (transaction_log w) (transaction_log (step c w))"
proof (cases c)
  case (AddProduct a)
  then show ?thesis by (simp add: addProduct_def)
next
  case (SellProduct name q)
  then show ?thesis by (simp add: sell_log_cases)
next
  case (ApplyDiscount name x)
  then show ?thesis
    by (simp add: InventoryManager_applyDiscount_def split: option.split)
next
  case (CheckAndRestock th)
  then show ?thesis by (simp add: checkAndRestock_def restock_loop_prefix)
next
  case SaveInventoryToFile
  then show ?thesis by (simp add: saveInventoryToFile_def)
qed

lemma run_append: "run (cs @ ds) w = run ds (run cs w)"
  by (induction cs arbitrary: w) simp_all

lemma run_prefix: "prefix (transaction_log w) (transaction_log (run cs w))"
proof (induction cs arbitrary: w)
  case Nil
  show ?case by simp
next
  case (Cons c cs)
  from step_prefix [of w c] Cons [of "step c w"] show ?case
    by (auto intro: prefix_order.trans)
qed

text \<open>
  C7. Each of the two \<^verbatim>\<open>logTransaction\<close> overloads appends exactly one line to
  \<^verbatim>\<open>transaction_log.txt\<close> and leaves the lines before it as they were. Every call of
  the manager (add, sell, discount, restock, save) leaves the log it found as a prefix
  of the log it leaves, and so along every session the log after any number of calls is
  a prefix of the log after any further calls.
\<close>

theorem transaction_log_append_only:
  "transaction_log (logTransaction_int t n q w) =
     transaction_log w @ [\<lparr>stamp = clock w (clock_reads w), event = t, subject = n,
                            magnitude = Quantity q\<rparr>] \<and>
   transaction_log (logTransaction_double t n x w) =
     transaction_log w @ [\<lparr>stamp = clock w (clock_reads w), event = t, subject = n,
                            magnitude = Discount x\<rparr>] \<and>
   length (transaction_log (logTransaction_int t n q w)) = length (transaction_log w) + 1 \<and>
   length (transaction_log (logTransaction_double t n x w)) = length (transaction_log w) + 1 \<and>
   prefix (transaction_log w) (transaction_log (step c w)) \<and>
   prefix (transaction_log (run cs w)) (transaction_log (run (cs @ ds) w))"
  by (simp add: step_prefix run_append run_prefix)

text \<open>
  The theorem on the shop: the log after a sale is a prefix of the log after a further
  restock and a save.
\<close>

theorem transaction_log_append_only_witness:
  "length (transaction_log (logTransaction_int ''Sale'' ''Widget'' 3 shop)) =
     length (transaction_log shop) + 1 \<and>
   prefix (transaction_log shop) (transaction_log (step (CheckAndRestock 10) shop)) \<and>
   prefix (transaction_log (run [SellProduct ''Widget'' 3] shop))
     (transaction_log (run ([SellProduct ''Widget'' 3] @ [CheckAndRestock 10, SaveInventoryToFile]) shop))"
  using transaction_log_append_only
          [where w = shop and t = "''Sale''" and n = "''Widget''" and q = 3
             and c = "CheckAndRestock 10" and cs = "[SellProduct ''Widget'' 3]"
             and ds = "[CheckAndRestock 10, SaveInventoryToFile]"]
  by blast

subsection \<open>What an operation leaves alone\<close>

lemma restock_loop_identity:
  "productName (heap (restock_loop es th w) b) = productName (heap w b) \<and>
   kind (heap (restock_loop es th w) b) = kind (heap w b) \<and>
   price (heap (restock_loop es th w) b) = price (heap w b)"
  by (induction es th w rule: restock_loop.induct) simp_all

lemma step_identity:
  "productName (heap (step c w) b) = productName (heap w b) \<and>
   kind (heap (step c w) b) = kind (heap w b)"
proof (cases c)
  case (SellProduct name q)
  then show ?thesis
    by (simp add: InventoryManager_sellProduct_def split: option.split)
next
  case (ApplyDiscount name x)
  then show ?thesis
    by (simp add: InventoryManager_applyDiscount_def split: option.split)
next
  case (CheckAndRestock th)
  then show ?thesis by (simp add: checkAndRestock_def restock_loop_identity)
qed (simp_all add: saveInventoryToFile_def)

lemma run_identity:
  "productName (heap (run cs w) b) = productName (heap w b) \<and>
   kind (heap (run cs w) b) = kind (heap w b)"
  by (induction cs arbitrary: w) (simp_all add: step_identity)

lemma sell_frame:
  assumes "map_of (inventory w) name = Some a"
  shows "price (heap (snd (InventoryManager_sellProduct name q w)) a) = price (heap w a)"
    and "b \<noteq> a \<Longrightarrow> heap (snd (InventoryManager_sellProduct name q w)) b = heap w b"
    and "inventory (snd (InventoryManager_sellProduct name q w)) = inventory w"
  using assms by (simp_all add: InventoryManager_sellProduct_def)

lemma discount_frame:
  assumes "map_of (inventory w) name = Some a"
  shows "stockQuantity (heap (InventoryManager_applyDiscount name x w) a) = stockQuantity (heap w a)"
    and "b \<noteq> a \<Longrightarrow> heap (InventoryManager_applyDiscount name x w) b = heap w b"
    and "inventory (InventoryManager_applyDiscount name x w) = inventory w"
  using assms by (simp_all add: InventoryManager_applyDiscount_def)

lemma absent_frame:
  assumes "map_of (inventory w) name = None"
  shows "heap (snd (InventoryManager_sellProduct name q w)) = heap w"
    and "heap (InventoryManager_applyDiscount name x w) = heap w"
  using assms by (simp_all add: InventoryManager_sellProduct_def InventoryManager_applyDiscount_def)

lemma catalog_ok_other_entry:
  assumes ok: "catalog_ok w" and a: "map_of (inventory w) name = Some a"
    and b: "(k, b) \<in> set (inventory w)" and ne: "k \<noteq> name"
  shows "b \<noteq> a"
proof
  assume "b = a"
  from a have "(name, a) \<in> set (inventory w)" by (rule map_of_SomeD)
  with ok have "productName (heap w a) = name"
    by (auto simp: catalog_ok_def list_all_iff)
  moreover from b ok have "productName (heap w b) = k"
    by (auto simp: catalog_ok_def list_all_iff)
  ultimately show False using \<open>b = a\<close> ne by simp
qed

subsection \<open>Insertion into the map\<close>

lemma map_assign_keys: "fst ` set (map_assign k v es) = insert k (fst ` set es)"
proof (induction es)
  case Nil
  show ?case by simp
next
  case (Cons e es)
  obtain k' v' where e: "e = (k', v')" by (cases e)
  show ?case unfolding e using Cons.IH by (simp add: insert_commute)
qed

lemma map_assign_sorted:
  "sorted_wrt (<) (map fst es) \<Longrightarrow> sorted_wrt (<) (map fst (map_assign k v es))"
proof (induction es)
  case Nil
  show ?case by simp
next
  case (Cons e es)
  obtain k' v' where e: "e = (k', v')" by (cases e)
  from Cons.prems e have tail: "sorted_wrt (<) (map fst es)"
    and above: "\<forall>y \<in> fst ` set es. k' < y" by auto
  consider "k < k'" | "k = k'" | "k' < k" by (cases k k' rule: linorder_cases) auto
  then show ?case
  proof cases
    case 1
    have "\<forall>y \<in> fst ` set es. k < y"
    proof
      fix y assume "y \<in> fst ` set es"
      with above have "k' < y" by blast
      with 1 show "k < y" by (rule less_trans)
    qed
    with 1 tail above show ?thesis unfolding e by simp
  next
    case 2
    with tail above show ?thesis unfolding e by simp
  next
    case 3
    then have not: "\<not> k < k'" "k \<noteq> k'" by auto
    from 3 above have "\<forall>y \<in> fst ` set (map_assign k v es). k' < y"
      by (simp add: map_assign_keys)
    with not Cons.IH [OF tail] show ?thesis unfolding e by simp
  qed
qed

lemma map_assign_list_all:
  "list_all P es \<Longrightarrow> P (k, v) \<Longrightarrow> list_all P (map_assign k v es)"
  by (induction es) auto

lemma catalog_ok_shop: "catalog_ok shop"
  by (simp add: catalog_ok_def shop_eval)

text \<open>
  C8. No call of the manager, and so no session, changes the name of an object or its
  subclass field (\<^verbatim>\<open>warrantyPeriod\<close>, \<^verbatim>\<open>expirationDate\<close>). A sale on a name the
  catalog holds leaves the price of that object as it was, a discount leaves its stock
  as it was, and both leave every other object as it was: every object at another
  address, hence, in a well-formed catalog, the object of every entry with another
  name. On a name the catalog does not hold neither changes any object.
\<close>

theorem only_price_and_stock_change:
  "productName (heap (step c w) b) = productName (heap w b) \<and>
   kind (heap (step c w) b) = kind (heap w b) \<and>
   productName (heap (run cs w) b) = productName (heap w b) \<and>
   kind (heap (run cs w) b) = kind (heap w b) \<and>
   (map_of (inventory w) name = Some a \<longrightarrow>
      price (heap (snd (InventoryManager_sellProduct name q w)) a) = price (heap w a) \<and>
      stockQuantity (heap (InventoryManager_applyDiscount name x w) a) =
        stockQuantity (heap w a) \<and>
      (b \<noteq> a \<longrightarrow>
         heap (snd (InventoryManager_sellProduct name q w)) b = heap w b \<and>
         heap (InventoryManager_applyDiscount name x w) b = heap w b) \<and>
      (catalog_ok w \<and> (k, b) \<in> set (inventory w) \<and> k \<noteq> name \<longrightarrow>
         heap (snd (InventoryManager_sellProduct name q w)) b = heap w b \<and>
         heap (InventoryManager_applyDiscount name x w) b = heap w b)) \<and>
   (map_of (inventory w) name = None \<longrightarrow>
      heap (snd (InventoryManager_sellProduct name q w)) = heap w \<and>
      heap (InventoryManager_applyDiscount name x w) = heap w)"
proof -
  have other: "heap (snd (InventoryManager_sellProduct name q w)) b = heap w b \<and>
      heap (InventoryManager_applyDiscount name x w) b = heap w b"
    if "map_of (inventory w) name = Some a" and "b \<noteq> a"
    using that sell_frame(2) [of w name a b q] discount_frame(2) [of w name a b x] by simp
  have entry: "b \<noteq> a"
    if "map_of (inventory w) name = Some a" and "catalog_ok w"
      and "(k, b) \<in> set (inventory w)" and "k \<noteq> name"
    using that catalog_ok_other_entry [of w name a k b] by simp
  show ?thesis
    using step_identity [of c w b] run_identity [of cs w b]
      sell_frame(1) [of w name a q] discount_frame(1) [of w name a x]
      absent_frame(1) [of w name q] absent_frame(2) [of w name x] other entry
    by simp
qed

text \<open>The theorem on the shop: a sale and a discount on Widget, seen from Apple.\<close>

theorem only_price_and_stock_change_witness:
  "map_of (inventory shop) ''Widget'' = Some 0 \<and> catalog_ok shop \<and>
   (''Apple'', 1) \<in> set (inventory shop) \<and> ''Apple'' \<noteq> ''Widget'' \<and> (1 :: addr) \<noteq> 0 \<and>
   heap (snd (InventoryManager_sellProduct ''Widget'' 3 shop)) 1 = apple \<and>
   heap (InventoryManager_applyDiscount ''Widget'' (double_of_int 20) shop) 1 = apple \<and>
   price (heap (snd (InventoryManager_sellProduct ''Widget'' 3 shop)) 0) = double_of_int 100 \<and>
   stockQuantity (heap (InventoryManager_applyDiscount ''Widget'' (double_of_int 20) shop) 0) = 5 \<and>
   productName (heap (run [SellProduct ''Widget'' 3, CheckAndRestock 10] shop) 0) = ''Widget'' \<and>
   map_of (inventory shop) ''Sprocket'' = None \<and>
   heap (snd (InventoryManager_sellProduct ''Sprocket'' 3 shop)) = heap shop"
  using only_price_and_stock_change
          [where c = "SellProduct ''Widget'' 3" and w = shop and b = 1 and name = "''Widget''"
             and cs = "[SellProduct ''Widget'' 3, CheckAndRestock 10]" and a = 0 and q = 3
             and x = "double_of_int 20" and k = "''Apple''"]
    only_price_and_stock_change
          [where c = "SellProduct ''Widget'' 3" and w = shop and b = 0 and name = "''Sprocket''"
             and cs = "[SellProduct ''Widget'' 3, CheckAndRestock 10]" and a = 0 and q = 3
             and x = "double_of_int 20" and k = "''Apple''"]
    catalog_ok_shop
  by (simp add: shop_eval)

subsection \<open>Every session keeps the catalog well formed\<close>

lemma catalog_ok_same_map:
  assumes "catalog_ok w" and "inventory w' = inventory w"
    and "\<And>b. productName (heap w' b) = productName (heap w b)"
  shows "catalog_ok w'"
  using assms by (simp add: catalog_ok_def list_all_iff)

lemma catalog_ok_addProduct:
  assumes "catalog_ok w"
  shows "catalog_ok (addProduct a w)"
proof (cases "map_of (inventory w) (productName (heap w a)) \<noteq> None")
  case True
  with assms show ?thesis by (simp add: catalog_ok_def addProduct_def)
next
  case False
  then have inv: "inventory (addProduct a w) =
      map_assign (productName (heap w a)) a (inventory w)"
    by (simp add: addProduct_def)
  from assms have "sorted_wrt (<) (map fst (inventory w))"
    and "list_all (\<lambda>(k, b). productName (heap w b) = k) (inventory w)"
    by (simp_all add: catalog_ok_def)
  then show ?thesis
    unfolding catalog_ok_def inv addProduct_heap
    by (intro conjI map_assign_sorted map_assign_list_all) simp_all
qed

lemma inventory_kept [simp]:
  "inventory (snd (InventoryManager_sellProduct name q w)) = inventory w"
  "inventory (InventoryManager_applyDiscount name x w) = inventory w"
  "inventory (checkAndRestock th w) = inventory w"
  "inventory (saveInventoryToFile w) = inventory w"
  by (simp_all add: InventoryManager_sellProduct_def InventoryManager_applyDiscount_def
      checkAndRestock_def saveInventoryToFile_def split: option.split)

lemma catalog_ok_step:
  assumes "catalog_ok w"
  shows "catalog_ok (step c w)"
proof (cases "\<exists>a. c = AddProduct a")
  case True
  with assms show ?thesis by (auto simp: catalog_ok_addProduct)
next
  case False
  then have "inventory (step c w) = inventory w"
    by (cases c) simp_all
  with assms show ?thesis
    by (rule catalog_ok_same_map) (simp add: step_identity)
qed

lemma catalog_ok_run: "catalog_ok w \<Longrightarrow> catalog_ok (run cs w)"
  by (induction cs arbitrary: w) (simp_all add: catalog_ok_step)

lemma catalog_ok_empty: "inventory w = [] \<Longrightarrow> catalog_ok w"
  by (simp add: catalog_ok_def)

lemma catalog_ok_distinct:
  assumes "catalog_ok w"
  shows "distinct (map snd (inventory w))"
proof -
  from assms have keys: "distinct (map fst (inventory w))"
    by (simp add: catalog_ok_def strict_sorted_iff)
  from assms have names: "\<forall>(k, b) \<in> set (inventory w). productName (heap w b) = k"
    by (simp add: catalog_ok_def list_all_iff)
  have "inj_on snd (set (inventory w))"
  proof (rule inj_onI)
    fix x y assume x: "x \<in> set (inventory w)" and y: "y \<in> set (inventory w)"
      and same: "snd x = snd y"
    from names x have "productName (heap w (snd x)) = fst x" by (cases x) auto
    moreover from names y have "productName (heap w (snd y)) = fst y" by (cases y) auto
    ultimately have "fst x = fst y" using same by simp
    with same show "x = y" by (simp add: prod_eq_iff)
  qed
  moreover from keys have "distinct (inventory w)" by (simp add: distinct_map)
  ultimately show ?thesis by (simp add: distinct_map)
qed

subsection \<open>checkAndRestock\<close>

lemma low_stock_cong:
  assumes "\<forall>e \<in> set es. h' (snd e) = h (snd e)"
  shows "filter (low_stock th h') es = filter (low_stock th h) es"
  using assms by (intro filter_cong) (simp_all add: low_stock_def)

lemma restock_step_heap:
  "heap (if sint (stockQuantity (heap w a)) < sint th then restockProduct a w else w) b =
     (if b = a \<and> low_stock th (heap w) (k, a) then updateStock restockAmount (heap w a)
      else heap w b)"
  by (simp add: low_stock_def)

lemma restock_loop_heap:
  "distinct (map snd es) \<Longrightarrow>
     heap (restock_loop es th w) b =
       (if b \<in> snd ` set (filter (low_stock th (heap w)) es)
        then updateStock restockAmount (heap w b) else heap w b)"
proof (induction es arbitrary: w)
  case Nil
  show ?case by simp
next
  case (Cons e es)
  obtain k a where e: "e = (k, a)" by (cases e)
  define w' where "w' = (if sint (stockQuantity (heap w a)) < sint th then restockProduct a w else w)"
  from Cons.prems e have fresh: "a \<notin> snd ` set es" and dist: "distinct (map snd es)" by auto
  have same: "\<forall>e \<in> set es. heap w' (snd e) = heap w (snd e)"
    using fresh by (auto simp: w'_def)
  have loop: "restock_loop (e # es) th w = restock_loop es th w'"
    by (simp add: e w'_def)
  have IH: "heap (restock_loop es th w') b =
      (if b \<in> snd ` set (filter (low_stock th (heap w)) es)
       then updateStock restockAmount (heap w' b) else heap w' b)"
    using Cons.IH [OF dist, of w'] low_stock_cong [OF same] by simp
  show ?case
  proof (cases "b = a")
    case True
    with fresh have "b \<notin> snd ` set (filter (low_stock th (heap w)) es)" by auto
    with True IH loop show ?thesis
      by (auto simp: e w'_def low_stock_def)
  next
    case False
    then have "heap w' b = heap w b" by (simp add: w'_def)
    with False IH loop show ?thesis by (auto simp: e)
  qed
qed

lemma restock_lines_append:
  "restock_lines clk n (ks @ ls) = restock_lines clk n ks @ restock_lines clk (n + length ks) ls"
  by (induction ks arbitrary: n) simp_all

lemma restock_loop_log:
  "distinct (map snd es) \<Longrightarrow>
     transaction_log (restock_loop es th w) =
       transaction_log w @
         restock_lines (clock w) (clock_reads w)
           (map (\<lambda>e. productName (heap w (snd e))) (filter (low_stock th (heap w)) es)) \<and>
     clock_reads (restock_loop es th w) =
       clock_reads w + length (filter (low_stock th (heap w)) es)"
proof (induction es arbitrary: w)
  case Nil
  show ?case by simp
next
  case (Cons e es)
  obtain k a where e: "e = (k, a)" by (cases e)
  define w' where "w' = (if sint (stockQuantity (heap w a)) < sint th then restockProduct a w else w)"
  from Cons.prems e have fresh: "a \<notin> snd ` set es" and dist: "distinct (map snd es)" by auto
  have same: "\<forall>e \<in> set es. heap w' (snd e) = heap w (snd e)"
    using fresh by (auto simp: w'_def)
  have names: "productName (heap w' b) = productName (heap w b)" for b
    by (simp add: w'_def)
  have loop: "restock_loop (e # es) th w = restock_loop es th w'"
    by (simp add: e w'_def)
  have IH: "transaction_log (restock_loop es th w') =
       transaction_log w' @
         restock_lines (clock w) (clock_reads w')
           (map (\<lambda>e. productName (heap w (snd e))) (filter (low_stock th (heap w)) es)) \<and>
     clock_reads (restock_loop es th w') =
       clock_reads w' + length (filter (low_stock th (heap w)) es)"
    using Cons.IH [OF dist, of w'] low_stock_cong [OF same] names
    by (simp add: w'_def)
  show ?case
  proof (cases "sint (stockQuantity (heap w a)) < sint th")
    case True
    then have "low_stock th (heap w) e" by (simp add: low_stock_def e)
    moreover from True have "w' = restockProduct a w" by (simp add: w'_def)
    ultimately show ?thesis using IH loop by (simp add: e)
  next
    case False
    then have "\<not> low_stock th (heap w) e" by (simp add: low_stock_def e)
    moreover from False have "w' = w" by (simp add: w'_def)
    ultimately show ?thesis using IH loop by simp
  qed
qed

lemma catalog_names:
  assumes "catalog_ok w"
  shows "map (\<lambda>e. productName (heap w (snd e))) (filter P (inventory w)) =
         map fst (filter P (inventory w))"
  using assms by (intro map_cong) (auto simp: catalog_ok_def list_all_iff)

lemma restockAmount_exact:
  assumes "sint (s :: int32) \<le> INT_MAX - 10"
  shows "sint (s + restockAmount) = sint s + 10"
proof -
  have "sint (s + restockAmount) = sint s + sint restockAmount"
    using assms sint_int32_range [of s]
    by (intro sint_add_exact) (simp_all add: restockAmount_def INT_MAX_def)
  then show ?thesis by (simp add: restockAmount_def)
qed

lemma checkAndRestock_characterised:
  "catalog_ok w \<longrightarrow>
     restockAmount = 10 \<and>
     inventory (checkAndRestock th w) = inventory w \<and>
     ((k, a) \<in> set (inventory w) \<and> sint (stockQuantity (heap w a)) < sint th \<longrightarrow>
        heap (checkAndRestock th w) a =
          (heap w a)\<lparr>stockQuantity := stockQuantity (heap w a) + restockAmount\<rparr> \<and>
        (sint (stockQuantity (heap w a)) \<le> INT_MAX - 10 \<longrightarrow>
           sint (stockQuantity (heap (checkAndRestock th w) a)) =
             sint (stockQuantity (heap w a)) + 10)) \<and>
     ((k, a) \<in> set (inventory w) \<and> \<not> sint (stockQuantity (heap w a)) < sint th \<longrightarrow>
        heap (checkAndRestock th w) a = heap w a) \<and>
     (b \<notin> snd ` set (inventory w) \<longrightarrow> heap (checkAndRestock th w) b = heap w b) \<and>
     transaction_log (checkAndRestock th w) =
       transaction_log w @
         restock_lines (clock w) (clock_reads w)
           (map fst (filter (low_stock th (heap w)) (inventory w))) \<and>
     length (transaction_log (checkAndRestock th w)) =
       length (transaction_log w) + length (filter (low_stock th (heap w)) (inventory w))"
proof
  assume ok: "catalog_ok w"
  then have dist: "distinct (map snd (inventory w))" by (rule catalog_ok_distinct)
  note heap_eq = restock_loop_heap [OF dist, of th w]
  note log_eq = restock_loop_log [OF dist, of th w]
  have low: "heap (checkAndRestock th w) a =
      (heap w a)\<lparr>stockQuantity := stockQuantity (heap w a) + restockAmount\<rparr>"
    if "(k, a) \<in> set (inventory w)" and "sint (stockQuantity (heap w a)) < sint th"
  proof -
    from that have "(k, a) \<in> set (filter (low_stock th (heap w)) (inventory w))"
      by (simp add: low_stock_def)
    then have "a \<in> snd ` set (filter (low_stock th (heap w)) (inventory w))"
      by (rule rev_image_eqI) simp
    then show ?thesis by (simp add: checkAndRestock_def heap_eq updateStock_def)
  qed
  have high: "heap (checkAndRestock th w) a = heap w a"
    if "\<not> sint (stockQuantity (heap w a)) < sint th"
  proof -
    from that have "a \<notin> snd ` set (filter (low_stock th (heap w)) (inventory w))"
      by (auto simp: low_stock_def)
    then show ?thesis by (simp add: checkAndRestock_def heap_eq)
  qed
  have outside: "heap (checkAndRestock th w) b = heap w b" if "b \<notin> snd ` set (inventory w)"
  proof -
    from that have "b \<notin> snd ` set (filter (low_stock th (heap w)) (inventory w))" by auto
    then show ?thesis by (simp add: checkAndRestock_def heap_eq)
  qed
  have log: "transaction_log (checkAndRestock th w) =
       transaction_log w @
         restock_lines (clock w) (clock_reads w)
           (map fst (filter (low_stock th (heap w)) (inventory w)))"
    using log_eq catalog_names [OF ok] by (simp add: checkAndRestock_def)
  have len: "length (restock_lines clk n ks) = length ks" for clk n ks
    by (induction ks arbitrary: n) simp_all
  show "restockAmount = 10 \<and>
     inventory (checkAndRestock th w) = inventory w \<and>
     ((k, a) \<in> set (inventory w) \<and> sint (stockQuantity (heap w a)) < sint th \<longrightarrow>
        heap (checkAndRestock th w) a =
          (heap w a)\<lparr>stockQuantity := stockQuantity (heap w a) + restockAmount\<rparr> \<and>
        (sint (stockQuantity (heap w a)) \<le> INT_MAX - 10 \<longrightarrow>
           sint (stockQuantity (heap (checkAndRestock th w) a)) =
             sint (stockQuantity (heap w a)) + 10)) \<and>
     ((k, a) \<in> set (inventory w) \<and> \<not> sint (stockQuantity (heap w a)) < sint th \<longrightarrow>
        heap (checkAndRestock th w) a = heap w a) \<and>
     (b \<notin> snd ` set (inventory w) \<longrightarrow> heap (checkAndRestock th w) b = heap w b) \<and>
     transaction_log (checkAndRestock th w) =
       transaction_log w @
         restock_lines (clock w) (clock_reads w)
           (map fst (filter (low_stock th (heap w)) (inventory w))) \<and>
     length (transaction_log (checkAndRestock th w)) =
       length (transaction_log w) + length (filter (low_stock th (heap w)) (inventory w))"
    using low high outside log
    by (simp add: len restockAmount_exact) (simp add: restockAmount_def)
qed

text \<open>
  C2, as amended. In a well-formed catalog \<^verbatim>\<open>checkAndRestock(threshold)\<close> adds \<^verbatim>\<open>restockAmount\<close>,
  which is 10, to the stock of every product whose stock before the call is strictly
  below the threshold, and leaves every product whose stock before the call is at or
  above the threshold, and every object outside the catalog, as it was: whether a
  product is restocked depends on the stock levels before the call only. The addition
  is the one of \<^verbatim>\<open>int\<close>; for a stock of at most \<open>INT_MAX - 10\<close> the new stock is the
  old one plus 10 as a number. The log grows by one Restock line of 10 units for each
  restocked product, in the order of the keys, and by nothing else. Every state that a
  session reaches from an empty catalog is well formed.
\<close>

theorem checkAndRestock_restocks_low_stock:
  "(inventory w0 = [] \<longrightarrow> catalog_ok (run cs w0)) \<and>
   (catalog_ok w \<longrightarrow>
     restockAmount = 10 \<and>
     inventory (checkAndRestock th w) = inventory w \<and>
     ((k, a) \<in> set (inventory w) \<and> sint (stockQuantity (heap w a)) < sint th \<longrightarrow>
        heap (checkAndRestock th w) a =
          (heap w a)\<lparr>stockQuantity := stockQuantity (heap w a) + restockAmount\<rparr> \<and>
        (sint (stockQuantity (heap w a)) \<le> INT_MAX - 10 \<longrightarrow>
           sint (stockQuantity (heap (checkAndRestock th w) a)) =
             sint (stockQuantity (heap w a)) + 10)) \<and>
     ((k, a) \<in> set (inventory w) \<and> \<not> sint (stockQuantity (heap w a)) < sint th \<longrightarrow>
        heap (checkAndRestock th w) a = heap w a) \<and>
     (b \<notin> snd ` set (inventory w) \<longrightarrow> heap (checkAndRestock th w) b = heap w b) \<and>
     transaction_log (checkAndRestock th w) =
       transaction_log w @
         restock_lines (clock w) (clock_reads w)
           (map fst (filter (low_stock th (heap w)) (inventory w))) \<and>
     length (transaction_log (checkAndRestock th w)) =
       length (transaction_log w) + length (filter (low_stock th (heap w)) (inventory w)))"
  using checkAndRestock_characterised [of w th k a b]
    catalog_ok_run [OF catalog_ok_empty, of w0 cs]
  by blast

text \<open>
  The theorem on the shop with threshold 10: Widget goes from 5 to 15, Gadget from 0 to
  10, Apple stays at 12.
\<close>

theorem checkAndRestock_restocks_low_stock_witness:
  "inventory empty_shop = [] \<and>
   run [AddProduct 0, AddProduct 1, AddProduct 2] empty_shop = shop \<and>
   catalog_ok shop \<and>
   (''Widget'', 0) \<in> set (inventory shop) \<and>
   sint (stockQuantity (heap shop 0)) < sint (10 :: int32) \<and>
   sint (stockQuantity (heap shop 0)) \<le> INT_MAX - 10 \<and>
   heap (checkAndRestock 10 shop) 0 = widget\<lparr>stockQuantity := 15\<rparr> \<and>
   sint (stockQuantity (heap (checkAndRestock 10 shop) 0)) = 15 \<and>
   (''Apple'', 1) \<in> set (inventory shop) \<and>
   \<not> sint (stockQuantity (heap shop 1)) < sint (10 :: int32) \<and>
   heap (checkAndRestock 10 shop) 1 = apple \<and>
   (3 :: addr) \<notin> snd ` set (inventory shop) \<and>
   heap (checkAndRestock 10 shop) 3 = heap shop 3 \<and>
   transaction_log (checkAndRestock 10 shop) =
     [\<lparr>stamp = 1746800000, event = ''Restock'', subject = ''Gadget'', magnitude = Quantity 10\<rparr>,
      \<lparr>stamp = 1746800001, event = ''Restock'', subject = ''Widget'', magnitude = Quantity 10\<rparr>]"
proof -
  note widget_case = checkAndRestock_restocks_low_stock
          [where w = shop and th = 10 and k = "''Widget''" and a = 0 and b = 3
             and ?w0.0 = empty_shop and cs = "[AddProduct 0, AddProduct 1, AddProduct 2]"]
  note apple_case = checkAndRestock_restocks_low_stock
          [where w = shop and th = 10 and k = "''Apple''" and a = 1 and b = 3
             and ?w0.0 = empty_shop and cs = "[AddProduct 0, AddProduct 1, AddProduct 2]"]
  have built: "run [AddProduct 0, AddProduct 1, AddProduct 2] empty_shop = shop"
    by (simp add: shop_eval addProduct_def)
  have "inventory empty_shop = []" by (simp add: empty_shop_def)
  with widget_case have "catalog_ok (run [AddProduct 0, AddProduct 1, AddProduct 2] empty_shop)"
    by blast
  then have ok: "catalog_ok shop" by (simp only: built)
  have w_in: "(''Widget'', 0) \<in> set (inventory shop)" by (simp add: shop_eval)
  have w_low: "sint (stockQuantity (heap shop 0)) < sint (10 :: int32)" by (simp add: shop_eval)
  have w_fits: "sint (stockQuantity (heap shop 0)) \<le> INT_MAX - 10"
    by (simp add: shop_eval INT_MAX_def)
  have a_in: "(''Apple'', 1) \<in> set (inventory shop)" by (simp add: shop_eval)
  have a_high: "\<not> sint (stockQuantity (heap shop 1)) < sint (10 :: int32)"
    by (simp add: shop_eval)
  have out: "(3 :: addr) \<notin> snd ` set (inventory shop)" by (simp add: shop_eval)
  from widget_case ok w_in w_low
  have "heap (checkAndRestock 10 shop) 0 =
      (heap shop 0)\<lparr>stockQuantity := stockQuantity (heap shop 0) + restockAmount\<rparr>"
    by blast
  also have "\<dots> = widget\<lparr>stockQuantity := 15\<rparr>"
    by (simp add: shop_eval restockAmount_def)
  finally have w_after: "heap (checkAndRestock 10 shop) 0 = widget\<lparr>stockQuantity := 15\<rparr>" .
  from widget_case ok w_in w_low w_fits
  have "sint (stockQuantity (heap (checkAndRestock 10 shop) 0)) =
      sint (stockQuantity (heap shop 0)) + 10"
    by blast
  also have "\<dots> = 15" by (simp add: shop_eval)
  finally have w_num: "sint (stockQuantity (heap (checkAndRestock 10 shop) 0)) = 15" .
  from apple_case ok a_in a_high have "heap (checkAndRestock 10 shop) 1 = heap shop 1"
    by blast
  also have "\<dots> = apple" by (simp add: shop_eval)
  finally have a_after: "heap (checkAndRestock 10 shop) 1 = apple" .
  from widget_case ok out have o_after: "heap (checkAndRestock 10 shop) 3 = heap shop 3"
    by blast
  from widget_case ok
  have "transaction_log (checkAndRestock 10 shop) =
      transaction_log shop @
        restock_lines (clock shop) (clock_reads shop)
          (map fst (filter (low_stock 10 (heap shop)) (inventory shop)))"
    by blast
  also have "\<dots> =
     [\<lparr>stamp = 1746800000, event = ''Restock'', subject = ''Gadget'', magnitude = Quantity 10\<rparr>,
      \<lparr>stamp = 1746800001, event = ''Restock'', subject = ''Widget'', magnitude = Quantity 10\<rparr>]"
    by (simp add: shop_eval low_stock_def restockAmount_def)
  finally show ?thesis
    using built ok w_in w_low w_fits w_after w_num a_in a_high a_after out o_after
    by (simp add: empty_shop_def)
qed

text \<open>
  C2 as stated fails near the top of the range of \<^verbatim>\<open>int\<close>: with a stock of
  \<open>INT_MAX - 5\<close> and a threshold of \<open>INT_MAX\<close> the product is restocked, the addition
  overflows, and the stock after the call is not the stock before it plus 10 but a
  negative number.
\<close>

theorem checkAndRestock_overflow_counterexample:
  "catalog_ok depot \<and> (''Widget'', 0) \<in> set (inventory depot) \<and>
   sint (stockQuantity (heap depot 0)) = 2147483642 \<and>
   sint (stockQuantity (heap depot 0)) < sint (2147483647 :: int32) \<and>
   sint (stockQuantity (heap (checkAndRestock 2147483647 depot) 0)) = - 2147483644 \<and>
   sint (stockQuantity (heap (checkAndRestock 2147483647 depot) 0)) \<noteq>
     sint (stockQuantity (heap depot 0)) + 10"
  by (simp add: catalog_ok_def depot_def empty_shop_def widget_def checkAndRestock_def
      restockAmount_def)

subsection \<open>saveInventoryToFile\<close>

text \<open>The digits written for a stock level read back as that stock level.\<close>

lemma digit_char_code: "d < 10 \<Longrightarrow> of_char (digit_char d) = 48 + d"
proof -
  assume "d < 10"
  then consider "d = 0" | "d = 1" | "d = 2" | "d = 3" | "d = 4" | "d = 5" | "d = 6"
    | "d = 7" | "d = 8" | "d = 9" by atomize_elim presburger
  then show ?thesis by cases (simp_all add: digit_char_def)
qed

lemma digits_of_nat_value: "decimal_value (digits_of_nat n) = n"
proof (induction n rule: digits_of_nat.induct)
  case (1 n)
  show ?case
  proof (cases "n < 10")
    case True
    then show ?thesis by (subst digits_of_nat.simps) (simp add: digit_char_code)
  next
    case False
    have "n mod 10 < 10" by simp
    with 1 [OF False] False show ?thesis
      by (subst digits_of_nat.simps) (simp add: digit_char_code)
  qed
qed

lemma string_of_int32_value:
  "0 \<le> sint i \<Longrightarrow> int (decimal_value (string_of_int32 i)) = sint i"
  "sint i < 0 \<Longrightarrow> hd (string_of_int32 i) = CHR ''-'' \<and>
     - int (decimal_value (tl (string_of_int32 i))) = sint i"
  by (simp_all add: string_of_int32_def digits_of_nat_value del: decimal_value.simps)

lemma write_entries_map:
  "write_entries es h outFile = outFile @ map (snapshot_line h) es"
  by (induction es h outFile rule: write_entries.induct) (simp_all add: snapshot_line_def)

lemma saveInventoryToFile_fields [simp]:
  "heap (saveInventoryToFile w) = heap w"
  "transaction_log (saveInventoryToFile w) = transaction_log w"
  "console (saveInventoryToFile w) = console w"
  "inventory_txt (saveInventoryToFile w) = map (snapshot_line (heap w)) (inventory w)"
  by (simp_all add: saveInventoryToFile_def write_entries_map)

text \<open>
  C6. After \<^verbatim>\<open>saveInventoryToFile\<close> the file \<^verbatim>\<open>inventory.txt\<close> holds exactly one line
  for each entry of the map, the line \<^verbatim>\<open><name> | <type> | <stock> | \<close> of that entry,
  in the order in which the map iterates, which in a well-formed catalog is the
  strictly increasing order of the names. What the file held before has no effect on
  what it holds after; a second export, after any calls in between, holds the lines of
  the state it is made in. Nothing else changes.
\<close>

theorem saveInventoryToFile_overwrites:
  "inventory_txt (saveInventoryToFile w) = map (snapshot_line (heap w)) (inventory w) \<and>
   length (inventory_txt (saveInventoryToFile w)) = length (inventory w) \<and>
   (i < length (inventory w) \<longrightarrow>
      inventory_txt (saveInventoryToFile w) ! i =
        fst (inventory w ! i) @ '' | '' @ getProductType (heap w (snd (inventory w ! i))) @ '' | ''
          @ string_of_int32 (stockQuantity (heap w (snd (inventory w ! i)))) @ '' | '') \<and>
   (catalog_ok w \<longrightarrow>
      sorted_wrt (<) (map fst (inventory w)) \<and>
      map fst (inventory w) = map (\<lambda>e. productName (heap w (snd e))) (inventory w)) \<and>
   saveInventoryToFile (w\<lparr>inventory_txt := old\<rparr>) = saveInventoryToFile w \<and>
   inventory_txt (saveInventoryToFile (run cs (saveInventoryToFile w))) =
     map (snapshot_line (heap (run cs (saveInventoryToFile w))))
       (inventory (run cs (saveInventoryToFile w))) \<and>
   heap (saveInventoryToFile w) = heap w \<and>
   inventory (saveInventoryToFile w) = inventory w \<and>
   transaction_log (saveInventoryToFile w) = transaction_log w"
proof -
  have names: "map fst (inventory w) = map (\<lambda>e. productName (heap w (snd e))) (inventory w)"
    if "catalog_ok w"
    using that by (intro map_cong) (auto simp: catalog_ok_def list_all_iff)
  have sorted: "sorted_wrt (<) (map fst (inventory w))" if "catalog_ok w"
    using that by (simp add: catalog_ok_def)
  have again: "saveInventoryToFile (w\<lparr>inventory_txt := old\<rparr>) = saveInventoryToFile w"
    by (simp add: saveInventoryToFile_def)
  show ?thesis
    using names sorted again by (simp add: snapshot_line_def)
qed

text \<open>The theorem on the shop: an export, a sale of 3 Widgets, a second export.\<close>

theorem saveInventoryToFile_overwrites_witness:
  "inventory_txt (saveInventoryToFile shop) =
     [''Apple | Food | 12 | '', ''Gadget | Electronics | 0 | '', ''Widget | Electronics | 5 | ''] \<and>
   (2 :: nat) < length (inventory shop) \<and>
   inventory_txt (saveInventoryToFile shop) ! 2 = ''Widget | Electronics | 5 | '' \<and>
   catalog_ok shop \<and>
   sorted_wrt (<) (map fst (inventory shop)) \<and>
   inventory_txt (saveInventoryToFile (run [SellProduct ''Widget'' 3] (saveInventoryToFile shop))) =
     [''Apple | Food | 12 | '', ''Gadget | Electronics | 0 | '', ''Widget | Electronics | 2 | '']"
proof -
  note T = saveInventoryToFile_overwrites
             [where w = shop and i = 2 and cs = "[SellProduct ''Widget'' 3]"]
  have digits: "string_of_int32 12 = ''12''" "string_of_int32 0 = ''0''"
    "string_of_int32 5 = ''5''" "string_of_int32 2 = ''2''"
    by (simp_all add: string_of_int32_def digits_of_nat.simps digit_char_def)
  have ok: "catalog_ok shop" by (rule catalog_ok_shop)
  have len: "(2 :: nat) < length (inventory shop)" by (simp add: shop_eval)
  from T have "inventory_txt (saveInventoryToFile shop) =
      map (snapshot_line (heap shop)) (inventory shop)"
    by blast
  also have "\<dots> =
     [''Apple | Food | 12 | '', ''Gadget | Electronics | 0 | '', ''Widget | Electronics | 5 | '']"
    by (simp add: shop_eval snapshot_line_def digits)
  finally have first: "inventory_txt (saveInventoryToFile shop) =
     [''Apple | Food | 12 | '', ''Gadget | Electronics | 0 | '', ''Widget | Electronics | 5 | '']" .
  from T ok have ordered: "sorted_wrt (<) (map fst (inventory shop))" by blast
  from T
  have "inventory_txt (saveInventoryToFile (run [SellProduct ''Widget'' 3] (saveInventoryToFile shop))) =
     map (snapshot_line (heap (run [SellProduct ''Widget'' 3] (saveInventoryToFile shop))))
       (inventory (run [SellProduct ''Widget'' 3] (saveInventoryToFile shop)))"
    by blast
  also have "\<dots> =
     [''Apple | Food | 12 | '', ''Gadget | Electronics | 0 | '', ''Widget | Electronics | 2 | '']"
    by (simp add: shop_eval snapshot_line_def digits InventoryManager_sellProduct_def
        Product_sellProduct_def)
  finally show ?thesis using first ok len ordered by simp
qed

end
